theory Spec2Isabelle
  imports Complex_Main "HOL-Library.Word" "HOL-Library.Monad_Syntax"
begin

section \<open>JavaScript strings\<close>

text \<open>
  A JavaScript string is a sequence of 16-bit code units. Literals of the source are
  written \<open>str ''...''\<close>; all of them are ASCII.
\<close>

type_synonym code_unit = "16 word"
type_synonym jsstring = "code_unit list"

definition str :: "string \<Rightarrow> jsstring" where
  "str s = map (\<lambda>c. of_nat (of_char c)) s"

text \<open>
  \<open>WhiteSpace\<close> and \<open>LineTerminator\<close> of ECMAScript: what \<open>String.prototype.trim\<close>
  strips and what \<open>\s\<close> matches in a regular expression.
\<close>

definition isWhiteSpace :: "code_unit \<Rightarrow> bool" where
  "isWhiteSpace c \<longleftrightarrow>
     c = 0x09 \<or> c = 0x0A \<or> c = 0x0B \<or> c = 0x0C \<or> c = 0x0D \<or> c = 0x20 \<or> c = 0xA0
     \<or> c = 0x1680 \<or> (0x2000 \<le> c \<and> c \<le> 0x200A) \<or> c = 0x2028 \<or> c = 0x2029
     \<or> c = 0x202F \<or> c = 0x205F \<or> c = 0x3000 \<or> c = 0xFEFF"

definition trim :: "jsstring \<Rightarrow> jsstring" where
  "trim s = rev (dropWhile isWhiteSpace (rev (dropWhile isWhiteSpace s)))"

text \<open>\<open>\d\<close> of a regular expression: the ten ASCII digits.\<close>

definition isDigit :: "code_unit \<Rightarrow> bool" where
  "isDigit c \<longleftrightarrow> 0x30 \<le> c \<and> c \<le> 0x39"

definition digitValue :: "code_unit \<Rightarrow> int" where
  "digitValue c = uint c - 48"

fun digitsValue :: "int \<Rightarrow> jsstring \<Rightarrow> int" where
  "digitsValue acc [] = acc"
| "digitsValue acc (c # cs) = digitsValue (acc * 10 + digitValue c) cs"

definition startsWith :: "jsstring \<Rightarrow> jsstring \<Rightarrow> bool" where
  "startsWith s p \<longleftrightarrow> take (length p) s = p"

text \<open>
  \<open>s.split(sep)\<close> for a non-empty separator: the pieces between the occurrences of
  \<open>sep\<close>, found from left to right. \<open>acc\<close> holds the current piece, reversed.
\<close>

function splitAcc :: "'a list \<Rightarrow> 'a list \<Rightarrow> 'a list \<Rightarrow> 'a list list" where
  "splitAcc sep acc [] = [rev acc]"
| "splitAcc sep acc (c # cs) =
     (if sep \<noteq> [] \<and> take (length sep) (c # cs) = sep
      then rev acc # splitAcc sep [] (drop (length sep) (c # cs))
      else splitAcc sep (c # acc) cs)"
  by pat_completeness auto
termination
  by (relation "measure (\<lambda>(sep, acc, s). length s)") auto

definition split :: "'a list \<Rightarrow> 'a list \<Rightarrow> 'a list list" where
  "split sep s = splitAcc sep [] s"

text \<open>\<open>parts.join(sep)\<close>.\<close>

fun join :: "'a list \<Rightarrow> 'a list list \<Rightarrow> 'a list" where
  "join sep [] = []"
| "join sep [p] = p"
| "join sep (p # q # ps) = p @ sep @ join sep (q # ps)"

text \<open>\<open>toUpperCase\<close> on the ASCII letters (the only letters the unit group can capture).\<close>

definition toUpperCase :: "jsstring \<Rightarrow> jsstring" where
  "toUpperCase s = map (\<lambda>c. if 0x61 \<le> c \<and> c \<le> 0x7A then c - 0x20 else c) s"

section \<open>JavaScript numbers\<close>

text \<open>
  A Number is an IEEE-754 binary64 value. The values this program computes are never
  negative zero and never negative infinity, so a Number is NaN, +Infinity or a finite
  double, the latter given by its exact rational value.
\<close>

datatype number = NaN | PosInfinity | Fin rat

definition pow2 :: "int \<Rightarrow> rat" where
  "pow2 e = (if 0 \<le> e then 2 ^ nat e else 1 / 2 ^ nat (- e))"

text \<open>The number of binary digits of a positive integer.\<close>

function bitlen :: "int \<Rightarrow> int" where
  "bitlen n = (if n \<le> 0 then 0 else 1 + bitlen (n div 2))"
  by pat_completeness auto
termination
  by (relation "measure nat") auto

declare bitlen.simps [simp del]

text \<open>\<open>ilog2 q\<close> is \<open>\<lfloor>log\<^sub>2 q\<rfloor>\<close> for a positive rational \<open>q\<close>.\<close>

definition ilog2 :: "rat \<Rightarrow> int" where
  "ilog2 q = (let (a, b) = quotient_of q; d = bitlen a - bitlen b
              in if pow2 d \<le> q then d else d - 1)"

text \<open>
  A magnitude is out of the range of a double when its binary exponent is above 1023,
  that is when it is \<open>2\<^sup>1\<^sup>0\<^sup>2\<^sup>4\<close> or more.
\<close>

definition overflows :: "rat \<Rightarrow> bool" where
  "overflows v \<longleftrightarrow> 1024 \<le> ilog2 v"

definition roundHalfEven :: "rat \<Rightarrow> int" where
  "roundHalfEven q = (let f = \<lfloor>q\<rfloor>; r = q - of_int f
                      in if r < 1 / 2 then f
                         else if 1 / 2 < r then f + 1
                         else if even f then f else f + 1)"

text \<open>
  The Number value for a non-negative mathematical value: round to the nearest double,
  ties to even, 53 bits of significand, least exponent -1074, overflow to +Infinity.
  A decimal literal of any length is rounded from its exact value, as V8 does.
\<close>

definition toDouble :: "rat \<Rightarrow> number" where
  "toDouble q = (if q = 0 then Fin 0
                 else let e = max (ilog2 q - 52) (- 1074);
                          v = of_int (roundHalfEven (q / pow2 e)) * pow2 e
                      in if overflows v then PosInfinity else Fin v)"

text \<open>
  \<open>parseFloat\<close> on a string of digits and dots (all that \<open>[\d.]+\<close> captures): the longest
  prefix that is a decimal literal, \<open>digits [. digits]\<close> or \<open>. digits\<close>; NaN when there is
  no such prefix.
\<close>

definition parseFloat :: "jsstring \<Rightarrow> number" where
  "parseFloat s =
     (let ip = takeWhile isDigit s; r = dropWhile isDigit s;
          fp = (case r of [] \<Rightarrow> [] | c # cs \<Rightarrow> if c = 0x2E then takeWhile isDigit cs else [])
      in if ip = [] \<and> fp = [] then NaN
         else toDouble (of_int (digitsValue 0 ip) + of_int (digitsValue 0 fp) / 10 ^ length fp))"

text \<open>
  The product of a Number and a power of two from the \<open>units\<close> table: exact unless it
  overflows.
\<close>

fun times :: "number \<Rightarrow> int \<Rightarrow> number" where
  "times NaN k = NaN"
| "times PosInfinity k = PosInfinity"
| "times (Fin q) k = (if overflows (q * of_int k) then PosInfinity else Fin (q * of_int k))"

fun Math_floor :: "number \<Rightarrow> number" where
  "Math_floor NaN = NaN"
| "Math_floor PosInfinity = PosInfinity"
| "Math_floor (Fin q) = Fin (of_int \<lfloor>q\<rfloor>)"

section \<open>parseSize\<close>

text \<open>
  The match of \<open>/^([\d.]+)\s*(GB|MB|TB|KB|B)?$/i\<close>: the two groups, the second absent
  when no unit is written. The three character classes are disjoint, so the greedy
  runs are the only way to match.
\<close>

definition unitNames :: "jsstring list" where
  "unitNames = [str ''GB'', str ''MB'', str ''TB'', str ''KB'', str ''B'']"

text \<open>The class \<open>[\d.]\<close>.\<close>

definition isNumChar :: "code_unit \<Rightarrow> bool" where
  "isNumChar c \<longleftrightarrow> isDigit c \<or> c = 0x2E"

definition sizeMatch :: "jsstring \<Rightarrow> (jsstring \<times> jsstring option) option" where
  "sizeMatch s =
     (let num = takeWhile isNumChar s;
          r = dropWhile isWhiteSpace (dropWhile isNumChar s)
      in if num = [] then None
         else if r = [] then Some (num, None)
         else if toUpperCase r \<in> set unitNames then Some (num, Some r)
         else None)"

definition units :: "jsstring \<Rightarrow> int option" where
  "units u = (if u = str ''B'' then Some 1
              else if u = str ''KB'' then Some 1024
              else if u = str ''MB'' then Some (1024 * 1024)
              else if u = str ''GB'' then Some (1024 * 1024 * 1024)
              else if u = str ''TB'' then Some (1024 * 1024 * 1024 * 1024)
              else None)"

definition parseSize :: "jsstring \<Rightarrow> number" where
  "parseSize s =
     (if s = [] then Fin 0
      else case sizeMatch s of
             None \<Rightarrow> Fin 0
           | Some (m1, m2) \<Rightarrow>
               let num = parseFloat m1;
                   unit = toUpperCase (case m2 of None \<Rightarrow> str ''B'' | Some u \<Rightarrow> u)
               in Math_floor (times num (case units unit of None \<Rightarrow> 1 | Some k \<Rightarrow> k)))"

text \<open>
  The strings that the regular expression matches, said without the matcher: the whole
  string is a non-empty run of digits and dots, then whitespace, then nothing or a unit
  name in any letter case. The multiplier of a unit is a power of 1024; no unit means
  bytes.
\<close>

definition sizeShape :: "jsstring \<Rightarrow> jsstring \<Rightarrow> jsstring \<Rightarrow> jsstring \<Rightarrow> bool" where
  "sizeShape s num ws u \<longleftrightarrow>
     s = num @ ws @ u \<and> num \<noteq> [] \<and> list_all isNumChar num \<and> list_all isWhiteSpace ws
     \<and> (u = [] \<or> toUpperCase u \<in> set unitNames)"

definition unitPower :: "jsstring \<Rightarrow> nat" where
  "unitPower u = (if toUpperCase u = str ''KB'' then 1
                  else if toUpperCase u = str ''MB'' then 2
                  else if toUpperCase u = str ''GB'' then 3
                  else if toUpperCase u = str ''TB'' then 4
                  else 0)"

section \<open>The platform\<close>

text \<open>
  Exceptions of the runtime that the handlers can meet.
\<close>

datatype error = URIError | RangeError | InvalidCharacterError | SyntaxError | TypeError

record subscriptionInfo =
  upload :: "jsstring option"
  download :: "jsstring option"
  total :: "jsstring option"
  expire :: "jsstring option"
  name :: "jsstring option"

text \<open>What \<open>fetch\<close> gives: a network failure (an exception), or the upstream's response.\<close>

record upstream =
  ok :: bool
  statusCode :: nat
  statusText :: jsstring
  bodyText :: jsstring
  userinfoHeader :: "jsstring option"
  intervalHeader :: "jsstring option"
  dispositionHeader :: "jsstring option"

datatype fetch_result = NetworkError jsstring | Fetched upstream

text \<open>
  The runtime's functions that are not modelled in full; each handler takes them as a
  parameter, and a theorem about a platform \<open>P\<close> holds for every platform.
  \<^item> \<open>dateParseImpl\<close>: Date parsing of a string that is not in the ECMAScript date-time
    format, which the standard leaves to the implementation; \<open>None\<close> is an invalid date.
  \<^item> \<open>numberToStringImpl\<close>: \<open>Number::toString\<close> of a finite value that is not an integer
    below \<open>10\<^sup>2\<^sup>1\<close> (exponent notation, fractions).
  \<^item> \<open>atob\<close>, \<open>btoa\<close>: base64; \<open>atob\<close> is \<open>None\<close> where it throws.
  \<^item> \<open>parseInt\<close>: \<open>None\<close> is NaN.
  \<^item> \<open>parseSubscriptionInfo\<close>: \<open>JSON.parse\<close> of the form field \<open>subscriptionInfo\<close>, \<open>None\<close>
    where it throws or gives \<open>null\<close>.
  \<^item> \<open>fetch\<close>: the upstream request of \<open>/sub\<close>.
  \<^item> \<open>errorMessage\<close>: the \<open>message\<close> of a caught exception.
\<close>

record platform =
  dateParseImpl :: "jsstring \<Rightarrow> int option"
  numberToStringImpl :: "rat \<Rightarrow> jsstring"
  atob :: "jsstring \<Rightarrow> jsstring option"
  btoa :: "8 word list \<Rightarrow> jsstring"
  fetch :: "jsstring \<Rightarrow> fetch_result"
  errorMessage :: "error \<Rightarrow> jsstring"
  parseInt :: "jsstring \<Rightarrow> int option"
  parseSubscriptionInfo :: "jsstring \<Rightarrow> subscriptionInfo option"

section \<open>Numbers as text\<close>

text \<open>The decimal digits of a non-negative integer.\<close>

function decimal :: "int \<Rightarrow> jsstring" where
  "decimal n = (if n < 10 then [of_int (48 + n)]
                else decimal (n div 10) @ [of_int (48 + n mod 10)])"
  by pat_completeness auto
termination
  by (relation "measure nat") auto

declare decimal.simps [simp del]

definition intToString :: "int \<Rightarrow> jsstring" where
  "intToString i = (if i < 0 then 0x2D # decimal (- i) else decimal i)"

text \<open>
  \<open>Number::toString\<close> of a positive integral Number \<open>v\<close> below \<open>10\<^sup>2\<^sup>1\<close>. The standard takes
  integers \<open>n\<close>, \<open>k\<close> and \<open>s\<close> with \<open>k\<close> as small as possible, \<open>s\<close> of \<open>k\<close> digits and
  \<open>s \<times> 10\<^sup>n\<^sup>-\<^sup>k\<close> a decimal whose Number value is \<open>v\<close>; of several such \<open>s\<close> its note
  recommends, and V8 takes, the one whose decimal is closest to \<open>v\<close>, and of two equally
  close ones the even one. The text is the digits of \<open>s\<close> followed by \<open>n - k\<close> zeros,
  which are the digits of the integer \<open>s \<times> 10\<^sup>n\<^sup>-\<^sup>k\<close>. Below \<open>2\<^sup>5\<^sup>3\<close> that integer is \<open>v\<close>
  itself; above, it can be another integer that rounds to \<open>v\<close>.

  \<open>roundTrips v c\<close>: the Number value of the positive integer \<open>c\<close> is \<open>v\<close>.
  \<open>shortestAt v z\<close>: the choice among the multiples of \<open>10\<^sup>z\<close>; only the two next to \<open>v\<close> can
  be the closest.
  \<open>shortestFrom v z\<close>: the most zeros first, which is the least \<open>k\<close>.
\<close>

definition roundTrips :: "int \<Rightarrow> int \<Rightarrow> bool" where
  "roundTrips v c \<longleftrightarrow> 0 < c \<and> toDouble (of_int c) = Fin (of_int v)"

definition shortestAt :: "int \<Rightarrow> nat \<Rightarrow> int option" where
  "shortestAt v z =
     (let p = 10 ^ z; lo = v div p * p; hi = lo + p
      in if roundTrips v lo \<and> roundTrips v hi
         then Some (if v - lo < hi - v then lo
                    else if hi - v < v - lo then hi
                    else if even (lo div p) then lo else hi)
         else if roundTrips v lo then Some lo
         else if roundTrips v hi then Some hi
         else None)"

fun shortestFrom :: "int \<Rightarrow> nat \<Rightarrow> int" where
  "shortestFrom v 0 = v"
| "shortestFrom v (Suc z) =
     (case shortestAt v (Suc z) of Some c \<Rightarrow> c | None \<Rightarrow> shortestFrom v z)"

definition shortest :: "int \<Rightarrow> int" where
  "shortest v = shortestFrom v (length (decimal v))"

text \<open>
  The conversion of a template literal \<open>`${x}`\<close> for a Number \<open>x\<close>: \<open>Number::toString\<close>,
  here for NaN, Infinity and the integral values below \<open>10\<^sup>2\<^sup>1\<close> in magnitude.
\<close>

fun numberToString :: "platform \<Rightarrow> number \<Rightarrow> jsstring" where
  "numberToString P NaN = str ''NaN''"
| "numberToString P PosInfinity = str ''Infinity''"
| "numberToString P (Fin q) =
     (if q = of_int \<lfloor>q\<rfloor> \<and> \<bar>q\<bar> < 10 ^ 21
      then (if q < 0 then 0x2D # decimal (shortest (- \<lfloor>q\<rfloor>)) else decimal (shortest \<lfloor>q\<rfloor>))
      else numberToStringImpl P q)"

section \<open>Dates\<close>

text \<open>
  The ECMAScript date-time format, in the one shape this program builds itself:
  \<open>YYYY-MM-DDTHH:mm:ss\<plusminus>HH:mm\<close> with every field in range and the day within its
  month. The result is the time value in milliseconds since the epoch, computed as the
  standard's \<open>MakeDay\<close>, \<open>MakeTime\<close> and \<open>MakeDate\<close> do.
\<close>

definition takeDigits :: "nat \<Rightarrow> jsstring \<Rightarrow> (int \<times> jsstring) option" where
  "takeDigits n s = (if n \<le> length s \<and> list_all isDigit (take n s)
                     then Some (digitsValue 0 (take n s), drop n s) else None)"

definition expect :: "code_unit \<Rightarrow> jsstring \<Rightarrow> jsstring option" where
  "expect c s = (case s of [] \<Rightarrow> None | x # xs \<Rightarrow> if x = c then Some xs else None)"

definition inLeapYear :: "int \<Rightarrow> bool" where
  "inLeapYear y \<longleftrightarrow> y mod 4 = 0 \<and> (y mod 100 \<noteq> 0 \<or> y mod 400 = 0)"

definition daysInMonth :: "int \<Rightarrow> int \<Rightarrow> int" where
  "daysInMonth y m = (if m = 2 then (if inLeapYear y then 29 else 28)
                      else if m = 4 \<or> m = 6 \<or> m = 9 \<or> m = 11 then 30 else 31)"

definition dayFromYear :: "int \<Rightarrow> int" where
  "dayFromYear y = 365 * (y - 1970) + (y - 1969) div 4 - (y - 1901) div 100 + (y - 1601) div 400"

definition daysBeforeMonth :: "int \<Rightarrow> int \<Rightarrow> int" where
  "daysBeforeMonth y m =
     [0, 31, 59, 90, 120, 151, 181, 212, 243, 273, 304, 334] ! nat (m - 1)
     + (if inLeapYear y \<and> 2 < m then 1 else 0)"

definition makeDay :: "int \<Rightarrow> int \<Rightarrow> int \<Rightarrow> int" where
  "makeDay y m d = dayFromYear y + daysBeforeMonth y m + d - 1"

definition isoDateTime :: "jsstring \<Rightarrow> int option" where
  "isoDateTime s0 = do {
     (y, s1) \<leftarrow> takeDigits 4 s0;
     s2 \<leftarrow> expect 0x2D s1;
     (mo, s3) \<leftarrow> takeDigits 2 s2;
     s4 \<leftarrow> expect 0x2D s3;
     (d, s5) \<leftarrow> takeDigits 2 s4;
     s6 \<leftarrow> expect 0x54 s5;
     (h, s7) \<leftarrow> takeDigits 2 s6;
     s8 \<leftarrow> expect 0x3A s7;
     (mi, s9) \<leftarrow> takeDigits 2 s8;
     s10 \<leftarrow> expect 0x3A s9;
     (sec, s11) \<leftarrow> takeDigits 2 s10;
     (sgn, s12) \<leftarrow> (case s11 of [] \<Rightarrow> None
                      | c # cs \<Rightarrow> if c = 0x2B then Some (1, cs)
                                  else if c = 0x2D then Some (- 1, cs) else None);
     (oh, s13) \<leftarrow> takeDigits 2 s12;
     s14 \<leftarrow> expect 0x3A s13;
     (om, s15) \<leftarrow> takeDigits 2 s14;
     if s15 = [] \<and> 1 \<le> mo \<and> mo \<le> 12 \<and> 1 \<le> d \<and> d \<le> daysInMonth y mo
        \<and> h \<le> 23 \<and> mi \<le> 59 \<and> sec \<le> 59 \<and> oh \<le> 23 \<and> om \<le> 59
     then Some ((makeDay y mo d * 86400 + (h * 3600 + mi * 60 + sec)
                 - sgn * (oh * 3600 + om * 60)) * 1000)
     else None }"

text \<open>
  \<open>new Date(s).getTime()\<close>: the date-time format first, the implementation's own parser
  for any other string, and \<open>TimeClip\<close>. \<open>None\<close> is NaN, the invalid date.
\<close>

definition Date_getTime :: "platform \<Rightarrow> jsstring \<Rightarrow> int option" where
  "Date_getTime P s =
     (case (case isoDateTime s of Some t \<Rightarrow> Some t | None \<Rightarrow> dateParseImpl P s) of
        None \<Rightarrow> None
      | Some t \<Rightarrow> if \<bar>t\<bar> \<le> 8640000000000000 then Some t else None)"

text \<open>The test \<open>/^\d{4}-\d{1,2}-\d{1,2}$/\<close>.\<close>

definition isBareDate :: "jsstring \<Rightarrow> bool" where
  "isBareDate s =
     (let y = takeWhile isDigit s; r1 = dropWhile isDigit s in
      length y = 4 \<and>
      (case r1 of [] \<Rightarrow> False | c1 # r2 \<Rightarrow>
         c1 = 0x2D \<and>
         (let m = takeWhile isDigit r2; r3 = dropWhile isDigit r2 in
          (length m = 1 \<or> length m = 2) \<and>
          (case r3 of [] \<Rightarrow> False | c2 # r4 \<Rightarrow>
             c2 = 0x2D \<and> (length r4 = 1 \<or> length r4 = 2) \<and> list_all isDigit r4))))"

text \<open>
  A bare date with a four-digit year and a two-digit month and day, and the time value
  of the last second of that day in UTC+8, which is 15:59:59 UTC.
\<close>

definition pad2 :: "int \<Rightarrow> jsstring" where
  "pad2 n = [of_int (48 + n div 10), of_int (48 + n mod 10)]"

definition paddedDate :: "int \<Rightarrow> int \<Rightarrow> int \<Rightarrow> jsstring" where
  "paddedDate y m d = pad2 (y div 100) @ pad2 (y mod 100) @ [0x2D] @ pad2 m @ [0x2D] @ pad2 d"

definition endOfDayUTC8 :: "int \<Rightarrow> int \<Rightarrow> int \<Rightarrow> int" where
  "endOfDayUTC8 y m d = (makeDay y m d * 86400 + 15 * 3600 + 59 * 60 + 59) * 1000"

section \<open>encodeURIComponent\<close>

definition isUnreserved :: "code_unit \<Rightarrow> bool" where
  "isUnreserved c \<longleftrightarrow>
     (0x41 \<le> c \<and> c \<le> 0x5A) \<or> (0x61 \<le> c \<and> c \<le> 0x7A) \<or> (0x30 \<le> c \<and> c \<le> 0x39)
     \<or> c = 0x2D \<or> c = 0x5F \<or> c = 0x2E \<or> c = 0x21 \<or> c = 0x7E \<or> c = 0x2A
     \<or> c = 0x27 \<or> c = 0x28 \<or> c = 0x29"

definition isLeadSurrogate :: "code_unit \<Rightarrow> bool" where
  "isLeadSurrogate c \<longleftrightarrow> 0xD800 \<le> c \<and> c \<le> 0xDBFF"

definition isTrailSurrogate :: "code_unit \<Rightarrow> bool" where
  "isTrailSurrogate c \<longleftrightarrow> 0xDC00 \<le> c \<and> c \<le> 0xDFFF"

definition hexDigit :: "int \<Rightarrow> code_unit" where
  "hexDigit n = (if n < 10 then of_int (48 + n) else of_int (55 + n))"

definition percent :: "int \<Rightarrow> jsstring" where
  "percent b = [0x25, hexDigit (b div 16), hexDigit (b mod 16)]"

text \<open>The UTF-8 octets of a code point.\<close>

definition utf8 :: "int \<Rightarrow> int list" where
  "utf8 cp =
     (if cp < 0x80 then [cp]
      else if cp < 0x800 then [0xC0 + cp div 64, 0x80 + cp mod 64]
      else if cp < 0x10000 then [0xE0 + cp div 4096, 0x80 + cp div 64 mod 64, 0x80 + cp mod 64]
      else [0xF0 + cp div 262144, 0x80 + cp div 4096 mod 64, 0x80 + cp div 64 mod 64,
            0x80 + cp mod 64])"

definition codePoint :: "code_unit \<Rightarrow> code_unit \<Rightarrow> int" where
  "codePoint lead trail = (uint lead - 0xD800) * 0x400 + (uint trail - 0xDC00) + 0x10000"

fun encodeURIComponent :: "jsstring \<Rightarrow> error + jsstring" where
  "encodeURIComponent [] = Inr []"
| "encodeURIComponent (c # cs) =
     (if isUnreserved c then map_sum id ((#) c) (encodeURIComponent cs)
      else if isTrailSurrogate c then Inl URIError
      else if isLeadSurrogate c then
        (case cs of
           [] \<Rightarrow> Inl URIError
         | d # ds \<Rightarrow>
             if isTrailSurrogate d
             then map_sum id ((@) (concat (map percent (utf8 (codePoint c d)))))
                    (encodeURIComponent ds)
             else Inl URIError)
      else map_sum id ((@) (concat (map percent (utf8 (uint c))))) (encodeURIComponent cs))"

section \<open>buildSubscriptionHeaders\<close>

text \<open>\<open>x && x.trim() !== ''\<close> for an optional string field \<open>x\<close>.\<close>

definition nonBlank :: "jsstring option \<Rightarrow> bool" where
  "nonBlank x = (case x of None \<Rightarrow> False | Some s \<Rightarrow> s \<noteq> [] \<and> trim s \<noteq> [])"

definition keysLength :: "subscriptionInfo \<Rightarrow> nat" where
  "keysLength si = length (filter (\<lambda>f. f \<noteq> None)
                     [upload si, download si, total si, expire si, name si])"

definition hasCustomInfo :: "subscriptionInfo \<Rightarrow> bool" where
  "hasCustomInfo si \<longleftrightarrow>
     0 < keysLength si
     \<and> (nonBlank (upload si) \<or> nonBlank (download si) \<or> nonBlank (total si)
        \<or> nonBlank (expire si))"

definition sizePart :: "platform \<Rightarrow> string \<Rightarrow> jsstring option \<Rightarrow> jsstring list" where
  "sizePart P field x =
     (if nonBlank x then [str field @ str ''='' @ numberToString P (parseSize (the x))]
      else [])"

definition expirePart :: "platform \<Rightarrow> jsstring option \<Rightarrow> jsstring list" where
  "expirePart P x =
     (if nonBlank x then
        (let expireStr = trim (the x);
             expireDate = (if isBareDate expireStr
                           then Date_getTime P (expireStr @ str ''T23:59:59+08:00'')
                           else Date_getTime P expireStr)
         in case expireDate of
              None \<Rightarrow> []
            | Some t \<Rightarrow> [str ''expire='' @ intToString (t div 1000)])
      else [])"

definition infoParts :: "platform \<Rightarrow> subscriptionInfo \<Rightarrow> jsstring list" where
  "infoParts P si =
     sizePart P ''upload'' (upload si) @ sizePart P ''download'' (download si)
     @ sizePart P ''total'' (total si) @ expirePart P (expire si)"

definition buildSubscriptionHeaders ::
  "platform \<Rightarrow> subscriptionInfo option \<Rightarrow> error + (jsstring \<times> jsstring) list" where
  "buildSubscriptionHeaders P subInfo =
     (case subInfo of
        None \<Rightarrow> Inr []
      | Some si \<Rightarrow>
          let headers = (if hasCustomInfo si \<and> infoParts P si \<noteq> []
                         then [(str ''subscription-userinfo'', join (str ''; '') (infoParts P si))]
                         else [])
          in if nonBlank (name si)
             then (case encodeURIComponent (trim (the (name si))) of
                     Inl e \<Rightarrow> Inl e
                   | Inr encodedName \<Rightarrow>
                       Inr (headers @ [(str ''content-disposition'',
                                        str ''attachment; filename*=UTF-8'' @ [0x27, 0x27]
                                        @ encodedName)]))
             else Inr headers)"

text \<open>
  The header builder as the specification words it. A size field is included when its
  string is non-empty after trimming, as \<open>field=parseSize(value)\<close>; the parts, in the
  order upload, download, total, expire, are joined with \<open>"; "\<close> when there is one.
\<close>

definition specSizePart :: "platform \<Rightarrow> string \<Rightarrow> jsstring option \<Rightarrow> jsstring list" where
  "specSizePart P field x =
     (case x of
        None \<Rightarrow> []
      | Some v \<Rightarrow> if trim v = [] then []
                  else [str field @ str ''='' @ numberToString P (parseSize v)])"

definition specUserinfo :: "platform \<Rightarrow> subscriptionInfo \<Rightarrow> (jsstring \<times> jsstring) list" where
  "specUserinfo P si =
     (let parts = specSizePart P ''upload'' (upload si) @ specSizePart P ''download'' (download si)
                  @ specSizePart P ''total'' (total si) @ expirePart P (expire si)
      in if parts = [] then []
         else [(str ''subscription-userinfo'', join (str ''; '') parts)])"

text \<open>A string is well formed when it has no unpaired surrogate.\<close>

fun wellFormed :: "jsstring \<Rightarrow> bool" where
  "wellFormed [] = True"
| "wellFormed [c] = (\<not> isLeadSurrogate c \<and> \<not> isTrailSurrogate c)"
| "wellFormed (c # d # cs) =
     (if isLeadSurrogate c then isTrailSurrogate d \<and> wellFormed cs
      else \<not> isTrailSurrogate c \<and> wellFormed (d # cs))"

section \<open>Records and the key-value store\<close>

text \<open>
  The metadata object that \<open>handleUpload\<close> writes as JSON. \<open>expiresAt\<close> is the time value
  of the stored ISO string, in milliseconds; \<open>None\<close> is \<open>null\<close> or an absent field. A
  record written before the counters existed has no \<open>downloadCount\<close>.
\<close>

record meta =
  meta_id :: jsstring
  filename :: jsstring
  contentType :: jsstring
  meta_size :: nat
  meta_type :: jsstring
  subscriptionInfo :: "subscriptionInfo option"
  originalUrl :: "jsstring option"
  burnAfterRead :: bool
  expiresAt :: "int option"
  maxDownloads :: "int option"
  downloadCount :: "int option"
  createdAt :: int

text \<open>
  The namespace \<open>METADATA\<close>: the entries under the keys \<open>"meta:" + id\<close> and those under
  \<open>"content:" + id\<close>, each as a map from the id. The two prefixes differ in their first
  character, so no key belongs to both. Reads see the last write.
\<close>

record store =
  metaEntries :: "jsstring \<rightharpoonup> meta"
  contentEntries :: "jsstring \<rightharpoonup> jsstring"

definition getMeta :: "store \<Rightarrow> jsstring \<Rightarrow> meta option" where
  "getMeta s i = metaEntries s i"

definition getContent :: "store \<Rightarrow> jsstring \<Rightarrow> jsstring option" where
  "getContent s i = contentEntries s i"

definition putMeta :: "jsstring \<Rightarrow> meta \<Rightarrow> store \<Rightarrow> store" where
  "putMeta i m s = s\<lparr>metaEntries := (metaEntries s)(i \<mapsto> m)\<rparr>"

definition putContent :: "jsstring \<Rightarrow> jsstring \<Rightarrow> store \<Rightarrow> store" where
  "putContent i c s = s\<lparr>contentEntries := (contentEntries s)(i \<mapsto> c)\<rparr>"

definition deleteMeta :: "jsstring \<Rightarrow> store \<Rightarrow> store" where
  "deleteMeta i s = s\<lparr>metaEntries := (metaEntries s)(i := None)\<rparr>"

definition deleteContent :: "jsstring \<Rightarrow> store \<Rightarrow> store" where
  "deleteContent i s = s\<lparr>contentEntries := (contentEntries s)(i := None)\<rparr>"

section \<open>Responses\<close>

datatype body = Text jsstring | Binary "8 word list" | JsonObject "(string \<times> jsstring) list"

record response =
  status :: nat
  headers :: "(jsstring \<times> jsstring) list"
  body :: body

definition corsHeaders :: "(jsstring \<times> jsstring) list" where
  "corsHeaders =
     [(str ''Access-Control-Allow-Origin'', str ''*''),
      (str ''Access-Control-Allow-Headers'', str ''Content-Type, Authorization''),
      (str ''Access-Control-Allow-Methods'', str ''GET, POST, OPTIONS, DELETE'')]"

text \<open>\<open>new Response(text, { status })\<close>.\<close>

definition plain :: "nat \<Rightarrow> jsstring \<Rightarrow> response" where
  "plain st msg = \<lparr>status = st, headers = [], body = Text msg\<rparr>"

text \<open>\<open>json(data, status)\<close>.\<close>

definition json :: "(string \<times> jsstring) list \<Rightarrow> nat \<Rightarrow> response" where
  "json data st = \<lparr>status = st,
                    headers = corsHeaders @ [(str ''Content-Type'', str ''application/json'')],
                    body = JsonObject data\<rparr>"

text \<open>
  \<open>encodeFilename\<close>: \<open>encodeURIComponent\<close>, then \<open>'\<close>, \<open>(\<close>, \<open>)\<close> and \<open>*\<close> escaped.
\<close>

definition escapeMore :: "code_unit \<Rightarrow> jsstring" where
  "escapeMore c = (if c = 0x27 then str ''%27'' else if c = 0x28 then str ''%28''
                   else if c = 0x29 then str ''%29'' else if c = 0x2A then str ''%2A''
                   else [c])"

definition encodeFilename :: "jsstring \<Rightarrow> error + jsstring" where
  "encodeFilename f =
     map_sum id (\<lambda>encoded. str ''attachment; filename*=UTF-8'' @ [0x27, 0x27]
                            @ concat (map escapeMore encoded))
       (encodeURIComponent f)"

section \<open>The read handlers\<close>

text \<open>\<open>meta.expiresAt && new Date(meta.expiresAt) < new Date()\<close>.\<close>

definition isExpired :: "int \<Rightarrow> meta \<Rightarrow> bool" where
  "isExpired now m = (case expiresAt m of None \<Rightarrow> False | Some t \<Rightarrow> t < now)"

text \<open>
  \<open>meta.maxDownloads && meta.downloadCount >= meta.maxDownloads\<close>: a \<open>maxDownloads\<close> of
  \<open>null\<close> or \<open>0\<close> is falsy, and an absent \<open>downloadCount\<close> compares false.
\<close>

definition limitReached :: "meta \<Rightarrow> bool" where
  "limitReached m =
     (case maxDownloads m of
        None \<Rightarrow> False
      | Some mx \<Rightarrow> mx \<noteq> 0 \<and> (case downloadCount m of None \<Rightarrow> False | Some n \<Rightarrow> mx \<le> n))"

text \<open>\<open>meta.downloadCount || 0\<close>, and \<open>meta.downloadCount = (meta.downloadCount || 0) + 1\<close>.\<close>

definition downloads :: "meta \<Rightarrow> int" where
  "downloads m = (case downloadCount m of None \<Rightarrow> 0 | Some n \<Rightarrow> n)"

definition countDownload :: "meta \<Rightarrow> meta" where
  "countDownload m = m\<lparr>downloadCount := Some (downloads m + 1)\<rparr>"

text \<open>A header object's entry as a condition: absent and empty are falsy.\<close>

definition truthy :: "jsstring option \<Rightarrow> bool" where
  "truthy x \<longleftrightarrow> x \<noteq> None \<and> x \<noteq> Some []"

definition rawHeaders ::
  "jsstring \<Rightarrow> (jsstring \<times> jsstring) list \<Rightarrow> jsstring \<Rightarrow> error + (jsstring \<times> jsstring) list" where
  "rawHeaders ctype subHeaders fname =
     (if truthy (map_of subHeaders (str ''content-disposition''))
      then Inr (corsHeaders @ [(str ''Content-Type'', ctype)] @ subHeaders)
      else map_sum id
             (\<lambda>cd. corsHeaders @ [(str ''Content-Type'', ctype)] @ subHeaders
                    @ [(str ''Content-Disposition'', cd)])
             (encodeFilename fname))"

definition handleRaw ::
  "platform \<Rightarrow> int \<Rightarrow> jsstring \<Rightarrow> store \<Rightarrow> (error + response) \<times> store" where
  "handleRaw P now i s =
     (case getMeta s i of
        None \<Rightarrow> (Inr (plain 404 (str ''Not found'')), s)
      | Some m \<Rightarrow>
          if isExpired now m
          then (Inr (plain 410 (str ''File expired'')), deleteContent i (deleteMeta i s))
          else if limitReached m
          then (Inr (plain 410 (str ''Download limit reached'')), s)
          else if \<not> truthy (getContent s i)
          then (Inr (plain 404 (str ''No content'')), s)
          else
            let content = the (getContent s i);
                m' = countDownload m;
                s' = (if burnAfterRead m' then deleteContent i (deleteMeta i s)
                      else putMeta i m' s)
            in (case buildSubscriptionHeaders P (subscriptionInfo m') of
                  Inl e \<Rightarrow> (Inl e, s')
                | Inr subHeaders \<Rightarrow>
                    if startsWith (contentType m') (str ''text/'')
                    then (case rawHeaders (contentType m' @ str ''; charset=utf-8'') subHeaders
                                 (filename m') of
                            Inl e \<Rightarrow> (Inl e, s')
                          | Inr hs \<Rightarrow>
                              (Inr \<lparr>status = 200, headers = hs, body = Text content\<rparr>, s'))
                    else (case atob P content of
                            None \<Rightarrow> (Inl InvalidCharacterError, s')
                          | Some bin \<Rightarrow>
                              (case rawHeaders (contentType m') subHeaders (filename m') of
                                 Inl e \<Rightarrow> (Inl e, s')
                               | Inr hs \<Rightarrow>
                                   (Inr \<lparr>status = 200, headers = hs,
                                         body = Binary (map ucast bin)\<rparr>, s')))))"

section \<open>The upstream merge\<close>

text \<open>
  A plain object with string values: its own properties in the order of their creation.
  Assigning to \<open>__proto__\<close> with a string creates no property. \<open>Object.entries\<close> lists
  the array-index keys first, in ascending numeric order, then the other keys in the
  order of their creation.
\<close>

type_synonym jsobject = "(jsstring \<times> jsstring) list"

definition objectSet :: "jsobject \<Rightarrow> jsstring \<Rightarrow> jsstring \<Rightarrow> jsobject" where
  "objectSet obj k v =
     (if k = str ''__proto__'' then obj
      else if k \<in> fst ` set obj then map (\<lambda>(k', v'). if k' = k then (k', v) else (k', v')) obj
      else obj @ [(k, v)])"

definition isArrayIndex :: "jsstring \<Rightarrow> bool" where
  "isArrayIndex k \<longleftrightarrow>
     k \<noteq> [] \<and> list_all isDigit k \<and> (k = str ''0'' \<or> hd k \<noteq> 0x30)
     \<and> digitsValue 0 k \<le> 4294967294"

definition Object_entries :: "jsobject \<Rightarrow> (jsstring \<times> jsstring) list" where
  "Object_entries obj =
     sort_key (\<lambda>(k, v). digitsValue 0 k) (filter (\<lambda>(k, v). isArrayIndex k) obj)
     @ filter (\<lambda>(k, v). \<not> isArrayIndex k) obj"

text \<open>
  One step of the \<open>forEach\<close> of \<open>parseUserInfo\<close>: the key and the value that a segment
  gives, if it gives any, and the assignment to the result.
\<close>

definition userInfoPair :: "jsstring \<Rightarrow> (jsstring \<times> jsstring) option" where
  "userInfoPair part =
     (case split (str ''='') (trim part) of
        key # value # _ \<Rightarrow>
          if key \<noteq> [] \<and> value \<noteq> [] then Some (trim key, trim value) else None
      | _ \<Rightarrow> None)"

definition userInfoStep :: "jsobject \<Rightarrow> jsstring \<Rightarrow> jsobject" where
  "userInfoStep result part =
     (case userInfoPair part of None \<Rightarrow> result | Some (k, v) \<Rightarrow> objectSet result k v)"

definition parseUserInfo :: "jsstring option \<Rightarrow> jsobject" where
  "parseUserInfo header =
     (if \<not> truthy header then []
      else foldl userInfoStep [] (split (str '';'') (the header)))"

text \<open>
  The \<open>subscription-userinfo\<close> entry of the response, from the custom builder's entry and
  the upstream's header; \<open>None\<close> when the response gets none.
\<close>

definition mergeUserInfo :: "jsstring option \<Rightarrow> jsstring option \<Rightarrow> jsstring option" where
  "mergeUserInfo custom originalUserInfo =
     (if truthy custom then
        (let customParts = split (str ''; '') (the custom);
             customKeys = map (\<lambda>p. hd (split (str ''='') p)) customParts;
             added = map (\<lambda>(key, value). key @ str ''='' @ value)
                       (filter (\<lambda>(key, value). key \<notin> set customKeys)
                          (Object_entries (parseUserInfo originalUserInfo)))
         in Some (join (str ''; '') (customParts @ added)))
      else if truthy originalUserInfo then originalUserInfo
      else None)"

text \<open>
  The upstream's fields as the specification speaks of them: the pairs that the segments
  of the header give, in the header's order; the field names in the order of their first
  occurrence; the value of a field, which is that of its last occurrence. The name
  \<open>__proto__\<close> never becomes a field.
\<close>

definition upstreamPairs :: "jsstring \<Rightarrow> (jsstring \<times> jsstring) list" where
  "upstreamPairs h =
     filter (\<lambda>(k, v). k \<noteq> str ''__proto__'') (List.map_filter userInfoPair (split (str '';'') h))"

definition firstOccurrences :: "'a list \<Rightarrow> 'a list" where
  "firstOccurrences xs = rev (remdups (rev xs))"

definition upstreamFields :: "jsstring \<Rightarrow> (jsstring \<times> jsstring) list" where
  "upstreamFields h =
     map (\<lambda>k. (k, the (map_of (rev (upstreamPairs h)) k)))
       (firstOccurrences (map fst (upstreamPairs h)))"

text \<open>
  The field names of the custom parts, and the parts \<open>field=upstreamValue\<close> for the
  fields of a list that are not among them.
\<close>

definition customKeys :: "jsstring \<Rightarrow> jsstring list" where
  "customKeys c = map (\<lambda>p. hd (split (str ''='') p)) (split (str ''; '') c)"

definition gapParts :: "jsstring \<Rightarrow> (jsstring \<times> jsstring) list \<Rightarrow> jsstring list" where
  "gapParts c fs =
     map (\<lambda>(k, v). k @ str ''='' @ v) (filter (\<lambda>(k, v). k \<notin> set (customKeys c)) fs)"

definition optionalHeader :: "string \<Rightarrow> jsstring option \<Rightarrow> (jsstring \<times> jsstring) list" where
  "optionalHeader n v = (if truthy v then [(str n, the v)] else [])"

definition subResponse ::
  "platform \<Rightarrow> meta \<Rightarrow> upstream \<Rightarrow> error + response" where
  "subResponse P m up =
     (case buildSubscriptionHeaders P (subscriptionInfo m) of
        Inl e \<Rightarrow> Inl e
      | Inr subHeaders \<Rightarrow>
          Inr \<lparr>status = 200,
               headers = corsHeaders @ [(str ''Content-Type'', str ''text/plain; charset=utf-8'')]
                 @ optionalHeader ''subscription-userinfo''
                     (mergeUserInfo (map_of subHeaders (str ''subscription-userinfo''))
                        (userinfoHeader up))
                 @ optionalHeader ''profile-update-interval'' (intervalHeader up)
                 @ optionalHeader ''content-disposition''
                     (if truthy (map_of subHeaders (str ''content-disposition''))
                      then map_of subHeaders (str ''content-disposition'')
                      else dispositionHeader up),
               body = Text (bodyText up)\<rparr>)"

definition failed :: "jsstring \<Rightarrow> response" where
  "failed msg = plain 502 (str ''Failed to fetch subscription: '' @ msg)"

definition handleSub ::
  "platform \<Rightarrow> int \<Rightarrow> jsstring \<Rightarrow> store \<Rightarrow> (error + response) \<times> store" where
  "handleSub P now i s =
     (case getMeta s i of
        None \<Rightarrow> (Inr (plain 404 (str ''Not found'')), s)
      | Some m \<Rightarrow>
          if isExpired now m
          then (Inr (plain 410 (str ''Subscription expired'')), deleteContent i (deleteMeta i s))
          else if limitReached m
          then (Inr (plain 410 (str ''Download limit reached'')), s)
          else if \<not> truthy (getContent s i)
          then (Inr (plain 404 (str ''No content'')), s)
          else
            let content = the (getContent s i);
                m' = countDownload m;
                s' = (if burnAfterRead m' then deleteContent i (deleteMeta i s)
                      else putMeta i m' s)
            in if meta_type m' = str ''subscription'' \<and> startsWith content (str ''http'')
               then (case fetch P content of
                       NetworkError msg \<Rightarrow> (Inr (failed msg), s')
                     | Fetched up \<Rightarrow>
                         if \<not> ok up
                         then (Inr (failed (decimal (int (statusCode up)) @ str '' ''
                                            @ statusText up)), s')
                         else (case subResponse P m' up of
                                 Inl e \<Rightarrow> (Inr (failed (errorMessage P e)), s')
                               | Inr r \<Rightarrow> (Inr r, s')))
               else (Inr \<lparr>status = 200,
                          headers = corsHeaders
                            @ [(str ''Content-Type'', str ''text/plain; charset=utf-8'')],
                          body = Text content\<rparr>, s'))"

section \<open>handleUpload\<close>

definition idChars :: jsstring where
  "idChars = str ''abcdefghijklmnopqrstuvwxyzABCDEFGHIJKLMNOPQRSTUVWXYZ0123456789''"

text \<open>\<open>generateId\<close>, from the bytes that \<open>crypto.getRandomValues\<close> wrote.\<close>

definition generateId :: "8 word list \<Rightarrow> jsstring" where
  "generateId arr = map (\<lambda>v. idChars ! (unat v mod length idChars)) arr"

definition isAllowedFile :: "jsstring \<Rightarrow> jsstring \<Rightarrow> bool" where
  "isAllowedFile fname mime \<longleftrightarrow>
     \<not> (startsWith mime (str ''image/'') \<or> startsWith mime (str ''video/'')
        \<or> startsWith mime (str ''audio/''))"

record upfile =
  fileName :: jsstring
  fileType :: jsstring
  fileBytes :: "8 word list"

text \<open>The fields of a multipart form, each \<open>None\<close> when the form has no such field.\<close>

record formData =
  fd_file :: "upfile option"
  fd_type :: "jsstring option"
  fd_burnAfterRead :: "jsstring option"
  fd_expiresIn :: "jsstring option"
  fd_maxDownloads :: "jsstring option"
  fd_customSlug :: "jsstring option"
  fd_subscriptionInfo :: "jsstring option"

text \<open>The recognised fields of a JSON body, each \<open>None\<close> when absent or \<open>null\<close>.\<close>

record jsonBody =
  body_content :: "jsstring option"
  body_filename :: "jsstring option"
  body_contentType :: "jsstring option"
  body_type :: "jsstring option"
  body_subscriptionInfo :: "subscriptionInfo option"
  body_burnAfterRead :: "bool option"
  body_expiresIn :: "int option"
  body_maxDownloads :: "int option"
  body_customSlug :: "jsstring option"

text \<open>
  An upload request: a multipart form, a JSON body, or a body that \<open>req.formData()\<close> or
  \<open>req.json()\<close> throws on.
\<close>

datatype request = MultipartRequest formData | JsonRequest jsonBody | Unreadable error

text \<open>The local variables of \<open>handleUpload\<close> once the body is read.\<close>

record upload =
  u_content :: jsstring
  u_filename :: jsstring
  u_mime :: jsstring
  u_type :: jsstring
  u_subscriptionInfo :: "subscriptionInfo option"
  u_burnAfterRead :: bool
  u_expiresIn :: "int option"
  u_maxDownloads :: "int option"
  u_customSlug :: "jsstring option"

text \<open>\<open>x || d\<close> for an optional string, and \<open>x || null\<close> for an optional number.\<close>

definition orElse :: "jsstring option \<Rightarrow> jsstring \<Rightarrow> jsstring" where
  "orElse x d = (if truthy x then the x else d)"

definition orNull :: "int option \<Rightarrow> int option" where
  "orNull x = (if x = Some 0 then None else x)"

definition readMultipart :: "platform \<Rightarrow> formData \<Rightarrow> response + upload" where
  "readMultipart P fd =
     (case fd_file fd of
        None \<Rightarrow> Inl (json [(''error'', str ''No file'')] 400)
      | Some f \<Rightarrow>
          if 25 * 1024 * 1024 < length (fileBytes f)
          then Inl (json [(''error'', str ''Too large'')] 400)
          else if \<not> isAllowedFile (fileName f) (fileType f)
          then Inl (json [(''error'', str ''File type blocked'')] 400)
          else Inr \<lparr>u_content = btoa P (fileBytes f),
                    u_filename = fileName f,
                    u_mime = (if fileType f \<noteq> [] then fileType f
                              else str ''application/octet-stream''),
                    u_type = orElse (fd_type fd) (str ''file''),
                    u_subscriptionInfo =
                      (if truthy (fd_subscriptionInfo fd)
                       then parseSubscriptionInfo P (the (fd_subscriptionInfo fd)) else None),
                    u_burnAfterRead = (fd_burnAfterRead fd = Some (str ''true'')),
                    u_expiresIn = (if truthy (fd_expiresIn fd)
                                   then parseInt P (the (fd_expiresIn fd)) else None),
                    u_maxDownloads = (if truthy (fd_maxDownloads fd)
                                      then parseInt P (the (fd_maxDownloads fd)) else None),
                    u_customSlug = (if truthy (fd_customSlug fd) then fd_customSlug fd
                                    else None)\<rparr>)"

definition readJson :: "jsonBody \<Rightarrow> upload" where
  "readJson b =
     \<lparr>u_content = orElse (body_content b) [],
      u_filename = orElse (body_filename b) (str ''text.txt''),
      u_mime = orElse (body_contentType b) (str ''text/plain''),
      u_type = orElse (body_type b) (str ''text''),
      u_subscriptionInfo = body_subscriptionInfo b,
      u_burnAfterRead = (body_burnAfterRead b = Some True),
      u_expiresIn = orNull (body_expiresIn b),
      u_maxDownloads = orNull (body_maxDownloads b),
      u_customSlug = (if truthy (body_customSlug b) then body_customSlug b else None)\<rparr>"

text \<open>
  The rest of \<open>handleUpload\<close>: the id, the check of a custom slug, the expiry, the two
  writes. \<open>toISOString\<close> throws a RangeError on a time value out of the range of a Date.
\<close>

definition storeUpload ::
  "int \<Rightarrow> 8 word list \<Rightarrow> upload \<Rightarrow> store \<Rightarrow> (error + response) \<times> store" where
  "storeUpload now rnd u s =
     (let i = (case u_customSlug u of Some slug \<Rightarrow> slug | None \<Rightarrow> generateId rnd) in
      if u_customSlug u \<noteq> None \<and> getMeta s (the (u_customSlug u)) \<noteq> None
      then (Inr (json [(''error'', str ''Custom slug already exists'')] 400), s)
      else if u_expiresIn u \<noteq> None \<and> u_expiresIn u \<noteq> Some 0
              \<and> 8640000000000000 < \<bar>now + the (u_expiresIn u) * 3600 * 1000\<bar>
      then (Inl RangeError, s)
      else
        let m = \<lparr>meta_id = i,
                 filename = u_filename u,
                 contentType = u_mime u,
                 meta_size = length (u_content u),
                 meta_type = u_type u,
                 subscriptionInfo = u_subscriptionInfo u,
                 originalUrl = (if u_type u = str ''subscription'' then Some (u_content u)
                                else None),
                 burnAfterRead = u_burnAfterRead u,
                 expiresAt = (if u_expiresIn u \<noteq> None \<and> u_expiresIn u \<noteq> Some 0
                              then Some (now + the (u_expiresIn u) * 3600 * 1000) else None),
                 maxDownloads = u_maxDownloads u,
                 downloadCount = Some 0,
                 createdAt = now\<rparr>
        in (Inr (json [(''id'', i),
                       (''url'', (if u_type u = str ''subscription'' then str ''/sub/''
                                  else str ''/raw/'') @ i)] 200),
            putMeta i m (putContent i (u_content u) s)))"

definition handleUpload ::
  "platform \<Rightarrow> int \<Rightarrow> 8 word list \<Rightarrow> request \<Rightarrow> store \<Rightarrow> (error + response) \<times> store" where
  "handleUpload P now rnd req s =
     (case req of
        Unreadable e \<Rightarrow> (Inl e, s)
      | MultipartRequest fd \<Rightarrow>
          (case readMultipart P fd of
             Inl r \<Rightarrow> (Inr r, s)
           | Inr u \<Rightarrow> storeUpload now rnd u s)
      | JsonRequest b \<Rightarrow> storeUpload now rnd (readJson b) s)"

section \<open>Sequences of reads\<close>

text \<open>
  The router sends a path under \<open>/raw/\<close> to \<open>handleRaw\<close> and one under \<open>/sub/\<close> to
  \<open>handleSub\<close>. \<open>readAll\<close> handles a sequence of read requests for one id, one after the
  other, each with its route and its time, and collects the outcomes.
\<close>

datatype route = Raw | Sub

fun handleRead ::
  "platform \<Rightarrow> route \<Rightarrow> int \<Rightarrow> jsstring \<Rightarrow> store \<Rightarrow> (error + response) \<times> store" where
  "handleRead P Raw now i s = handleRaw P now i s"
| "handleRead P Sub now i s = handleSub P now i s"

fun readAll ::
  "platform \<Rightarrow> jsstring \<Rightarrow> (route \<times> int) list \<Rightarrow> store \<Rightarrow> (error + response) list \<times> store" where
  "readAll P i [] s = ([], s)"
| "readAll P i ((r, now) # rs) s =
     (let (x, s') = handleRead P r now i s; (xs, s'') = readAll P i rs s' in (x # xs, s''))"

text \<open>The status code of an outcome; none when the handler threw.\<close>

definition statusOf :: "error + response \<Rightarrow> nat option" where
  "statusOf x = (case x of Inl e \<Rightarrow> None | Inr r \<Rightarrow> Some (status r))"

section \<open>Sample data\<close>

text \<open>Concrete inputs on which the theorems below are instantiated.\<close>

definition samplePlatform :: platform where
  "samplePlatform =
     \<lparr>dateParseImpl = (\<lambda>_. None), numberToStringImpl = (\<lambda>_. []), atob = (\<lambda>_. None),
      btoa = (\<lambda>_. []), fetch = (\<lambda>_. NetworkError []), errorMessage = (\<lambda>_. []),
      parseInt = (\<lambda>_. None), parseSubscriptionInfo = (\<lambda>_. None)\<rparr>"

definition noInfo :: subscriptionInfo where
  "noInfo = \<lparr>upload = None, download = None, total = None, expire = None, name = None\<rparr>"

definition sampleMeta :: meta where
  "sampleMeta =
     \<lparr>meta_id = str ''a'', filename = str ''a.txt'', contentType = str ''text/plain'',
      meta_size = 2, meta_type = str ''text'', subscriptionInfo = None, originalUrl = None,
      burnAfterRead = False, expiresAt = None, maxDownloads = None, downloadCount = Some 0,
      createdAt = 0\<rparr>"

definition sampleUpstream :: upstream where
  "sampleUpstream =
     \<lparr>ok = True, statusCode = 200, statusText = str ''OK'', bodyText = str ''feed'',
      userinfoHeader = Some (str ''upload=100; download=200''), intervalHeader = None,
      dispositionHeader = None\<rparr>"

definition emptyStore :: store where
  "emptyStore = \<lparr>metaEntries = Map.empty, contentEntries = Map.empty\<rparr>"

text \<open>A JSON body with a custom slug and nothing else.\<close>

definition sampleBody :: jsonBody where
  "sampleBody =
     \<lparr>body_content = None, body_filename = None, body_contentType = None, body_type = None,
      body_subscriptionInfo = None, body_burnAfterRead = None, body_expiresIn = None,
      body_maxDownloads = None, body_customSlug = Some (str ''pic'')\<rparr>"

text \<open>The store that holds one record and its content.\<close>

definition singleStore :: "meta \<Rightarrow> jsstring \<Rightarrow> store" where
  "singleStore m c = \<lparr>metaEntries = [meta_id m \<mapsto> m], contentEntries = [meta_id m \<mapsto> c]\<rparr>"

section \<open>Rounding and the range of a double\<close>

lemma pow2_powi: "pow2 e = 2 powi e"
  by (simp add: pow2_def power_int_def inverse_eq_divide power_one_over)

lemma bitlen_bounds:
  "0 < n \<Longrightarrow> 0 < bitlen n \<and> 2 ^ nat (bitlen n - 1) \<le> n \<and> n < 2 ^ nat (bitlen n)"
proof (induction n rule: bitlen.induct)
  case (1 n)
  show ?case
  proof (cases "n = 1")
    case True
    then show ?thesis by (simp add: bitlen.simps [of 1] bitlen.simps [of 0])
  next
    case False
    with 1 have h: "0 < n div 2" by simp
    from 1(1) [OF _ h] 1(2)
    have ih: "0 < bitlen (n div 2)" "2 ^ nat (bitlen (n div 2) - 1) \<le> n div 2"
      "n div 2 < 2 ^ nat (bitlen (n div 2))" by auto
    have b: "bitlen n = 1 + bitlen (n div 2)" using 1(2) by (simp add: bitlen.simps [of n])
    have e: "nat (bitlen n - 1) = Suc (nat (bitlen (n div 2) - 1))"
      "nat (bitlen n) = Suc (nat (bitlen (n div 2)))"
      using ih(1) b by auto
    have "2 * 2 ^ nat (bitlen (n div 2) - 1) \<le> n" using ih(2) by linarith
    moreover have "n < 2 * 2 ^ nat (bitlen (n div 2))" using ih(3) by linarith
    ultimately show ?thesis using ih(1) b unfolding e by simp
  qed
qed

lemma ilog2_bounds:
  assumes "0 < q"
  shows "pow2 (ilog2 q) \<le> q \<and> q < pow2 (ilog2 q + 1)"
proof -
  obtain a b where ab: "quotient_of q = (a, b)" by (cases "quotient_of q")
  then have b: "0 < b" and q: "q = of_int a / of_int b"
    using quotient_of_denom_pos quotient_of_div by auto
  from assms q b have a: "0 < a" by (simp add: zero_less_divide_iff)
  let ?la = "bitlen a" and ?lb = "bitlen b"
  note ba = bitlen_bounds [OF a] and bb = bitlen_bounds [OF b]
  have a1: "(2::rat) powi (?la - 1) \<le> of_int a"
  proof -
    have "(of_int (2 ^ nat (?la - 1)) :: rat) \<le> of_int a" using ba by (simp only: of_int_le_iff)
    then show ?thesis using ba by (simp add: power_int_def)
  qed
  have a2: "of_int a < (2::rat) powi ?la"
  proof -
    have "(of_int a :: rat) < of_int (2 ^ nat ?la)" using ba by (simp only: of_int_less_iff)
    then show ?thesis using ba by (simp add: power_int_def)
  qed
  have b1: "(2::rat) powi (?lb - 1) \<le> of_int b"
  proof -
    have "(of_int (2 ^ nat (?lb - 1)) :: rat) \<le> of_int b" using bb by (simp only: of_int_le_iff)
    then show ?thesis using bb by (simp add: power_int_def)
  qed
  have b2: "of_int b < (2::rat) powi ?lb"
  proof -
    have "(of_int b :: rat) < of_int (2 ^ nat ?lb)" using bb by (simp only: of_int_less_iff)
    then show ?thesis using bb by (simp add: power_int_def)
  qed
  have bpos: "(0::rat) < of_int b" using b by simp
  have lo: "(2::rat) powi (?la - ?lb - 1) \<le> q"
  proof -
    have "(2::rat) powi (?la - ?lb - 1) * of_int b \<le> 2 powi (?la - ?lb - 1) * 2 powi ?lb"
      using b2 by (intro mult_left_mono) auto
    also have "\<dots> = 2 powi (?la - 1)" by (simp flip: power_int_add)
    also have "\<dots> \<le> of_int a" by (rule a1)
    finally show ?thesis using bpos by (simp add: q pos_le_divide_eq)
  qed
  have hi: "q < (2::rat) powi (?la - ?lb + 1)"
  proof -
    have "of_int a < (2::rat) powi ?la" by (rule a2)
    also have "\<dots> = 2 powi (?la - ?lb + 1) * 2 powi (?lb - 1)" by (simp flip: power_int_add)
    also have "\<dots> \<le> 2 powi (?la - ?lb + 1) * of_int b"
      using b1 by (intro mult_left_mono) auto
    finally show ?thesis using bpos by (simp add: q pos_divide_less_eq)
  qed
  show ?thesis
    using lo hi by (auto simp: ilog2_def ab pow2_powi not_le Let_def)
qed

lemma overflows_iff:
  assumes "0 \<le> v"
  shows "overflows v \<longleftrightarrow> 2 ^ 1024 \<le> v"
proof (cases "v = 0")
  case True
  have "ilog2 0 = - 2" by code_simp
  with True show ?thesis by (simp add: overflows_def)
next
  case False
  with assms have pos: "0 < v" by simp
  note b = ilog2_bounds [OF pos, unfolded pow2_powi]
  have p: "(2::rat) ^ 1024 = 2 powi 1024" by simp
  show ?thesis
  proof
    assume "overflows v"
    then have "(2::rat) powi 1024 \<le> 2 powi (ilog2 v)"
      unfolding overflows_def by (intro power_int_increasing) auto
    with b show "2 ^ 1024 \<le> v" unfolding p by linarith
  next
    assume "2 ^ 1024 \<le> v"
    with b have "(2::rat) powi 1024 < 2 powi (ilog2 v + 1)" unfolding p by linarith
    then have "1024 < ilog2 v + 1"
      by (metis less_le_not_le linorder_not_less one_le_numeral power_int_increasing)
    then show "overflows v" by (simp add: overflows_def)
  qed
qed

lemma roundHalfEven_int [simp]: "roundHalfEven (of_int k) = k"
  by (simp add: roundHalfEven_def)

lemma toDouble_int:
  assumes "0 \<le> n" "n < 2 ^ 53"
  shows "toDouble (of_int n) = Fin (of_int n)"
proof (cases "n = 0")
  case True
  then show ?thesis by (simp add: toDouble_def)
next
  case False
  with assms have pos: "(0::rat) < of_int n" and one: "(1::rat) \<le> of_int n" by simp_all
  note b = ilog2_bounds [OF pos, unfolded pow2_powi]
  let ?E = "ilog2 (of_int n)"
  have l1: "(2::rat) powi 0 < 2 powi (?E + 1)" using b one by simp
  have lo: "0 \<le> ?E"
  proof (rule ccontr)
    assume "\<not> 0 \<le> ?E"
    then have "?E + 1 \<le> 0" by simp
    then have "(2::rat) powi (?E + 1) \<le> 2 powi 0" by (intro power_int_increasing) auto
    with l1 show False by simp
  qed
  have n53: "(of_int n :: rat) < of_int (2 ^ 53)" using assms(2) by (simp only: of_int_less_iff)
  have h1: "(2::rat) powi ?E < 2 powi 53" using b n53 by simp
  have hi: "?E \<le> 52"
  proof (rule ccontr)
    assume "\<not> ?E \<le> 52"
    then have "53 \<le> ?E" by simp
    then have "(2::rat) powi 53 \<le> 2 powi ?E" by (intro power_int_increasing) auto
    with h1 show False by simp
  qed
  define k where "k = nat (52 - ?E)"
  have e: "max (?E - 52) (- 1074) = - int k" using lo hi by (simp add: k_def)
  have p: "pow2 (- int k) = 1 / 2 ^ k"
    by (cases "k = 0") (simp_all add: pow2_def)
  have q: "of_int n / pow2 (- int k) = (of_int (n * 2 ^ k) :: rat)" by (simp add: p)
  have v: "of_int (roundHalfEven (of_int n / pow2 (- int k))) * pow2 (- int k) = (of_int n :: rat)"
    unfolding q roundHalfEven_int by (simp add: p)
  have "(of_int n :: rat) < 2 ^ 1024"
  proof -
    have "(of_int n :: rat) < 2 ^ 53"
      using n53 by simp
    also have "\<dots> < 2 ^ 1024" by (rule power_strict_increasing) simp_all
    finally show ?thesis .
  qed
  then have "\<not> overflows (of_int n)" using pos by (subst overflows_iff) auto
  then show ?thesis using False by (simp add: toDouble_def e v Let_def)
qed

subsection \<open>The digits of an integer below \<open>2\<^sup>5\<^sup>3\<close>\<close>

lemma roundHalfEven_floor: "\<lfloor>q\<rfloor> \<le> roundHalfEven q"
  by (simp add: roundHalfEven_def Let_def)

lemma toDouble_big:
  assumes "2 ^ 53 \<le> c"
  shows "toDouble (of_int c) = PosInfinity \<or> (\<exists>w. toDouble (of_int c) = Fin w \<and> 2 ^ 53 \<le> w)"
proof -
  have c53: "(of_int (2 ^ 53) :: rat) \<le> of_int c" using assms by (simp only: of_int_le_iff)
  then have c53': "(2::rat) powi 53 \<le> of_int c" by simp
  then have pos: "(0::rat) < of_int c" by (rule less_le_trans [rotated]) simp
  note b = ilog2_bounds [OF pos, unfolded pow2_powi]
  let ?E = "ilog2 (of_int c)"
  have l1: "(2::rat) powi 53 < 2 powi (?E + 1)" using b c53' by linarith
  have lo: "53 \<le> ?E"
  proof (rule ccontr)
    assume "\<not> 53 \<le> ?E"
    then have "?E + 1 \<le> 53" by simp
    then have "(2::rat) powi (?E + 1) \<le> 2 powi 53" by (intro power_int_increasing) auto
    with l1 show False by simp
  qed
  define e where "e = ?E - 52"
  have e1: "1 \<le> e" using lo by (simp add: e_def)
  have em: "max (?E - 52) (- 1074) = e" using lo by (simp add: e_def)
  have pe: "(0::rat) < 2 powi e" by simp
  have p2: "(2::rat) \<le> 2 powi e"
  proof -
    have "(2::rat) powi 1 \<le> 2 powi e" using e1 by (intro power_int_increasing) auto
    then show ?thesis by simp
  qed
  have "(2::rat) powi ?E = 2 powi (52 + e)" by (simp add: e_def)
  also have "\<dots> = 2 powi 52 * 2 powi e" by (rule power_int_add) simp
  finally have "(2::rat) powi 52 * 2 powi e \<le> of_int c" using b by simp
  then have x: "(2::rat) powi 52 \<le> of_int c / 2 powi e"
    using pe by (simp add: pos_le_divide_eq)
  have "(of_int (2 ^ 52) :: rat) \<le> of_int c / 2 powi e" using x by simp
  then have "2 ^ 52 \<le> \<lfloor>(of_int c :: rat) / 2 powi e\<rfloor>" by (simp only: le_floor_iff)
  then have r: "2 ^ 52 \<le> roundHalfEven (of_int c / 2 powi e)"
    using roundHalfEven_floor [of "of_int c / 2 powi e"] by linarith
  define w where "w = (of_int (roundHalfEven (of_int c / 2 powi e)) :: rat) * 2 powi e"
  have "(of_int (2 ^ 52) :: rat) \<le> of_int (roundHalfEven (of_int c / 2 powi e))"
    using r by (simp only: of_int_le_iff)
  then have "(2::rat) ^ 52 * 2 \<le> of_int (roundHalfEven (of_int c / 2 powi e)) * 2 powi e"
    using p2 by (intro mult_mono) simp_all
  then have w53: "2 ^ 53 \<le> w" by (simp add: w_def)
  have "toDouble (of_int c) = (if overflows w then PosInfinity else Fin w)"
    using pos by (simp add: toDouble_def em pow2_powi w_def Let_def)
  then show ?thesis using w53 by auto
qed

lemma roundTrips_safe:
  assumes "0 \<le> v" "v < 2 ^ 53"
  shows "roundTrips v c \<longleftrightarrow> 0 < c \<and> c = v"
proof (cases "c < 2 ^ 53")
  case True
  show ?thesis
  proof (cases "0 < c")
    case False
    then show ?thesis by (simp add: roundTrips_def)
  next
    case c: True
    then have "toDouble (of_int c) = Fin (of_int c)" using True by (simp add: toDouble_int)
    then show ?thesis using c by (simp add: roundTrips_def)
  qed
next
  case False
  then have "2 ^ 53 \<le> c" by simp
  from toDouble_big [OF this] have "toDouble (of_int c) \<noteq> Fin (of_int v)"
  proof
    assume "toDouble (of_int c) = PosInfinity"
    then show ?thesis by simp
  next
    assume "\<exists>w. toDouble (of_int c) = Fin w \<and> 2 ^ 53 \<le> w"
    then obtain w where w: "toDouble (of_int c) = Fin w" "2 ^ 53 \<le> w" by blast
    have "(of_int v :: rat) < of_int (2 ^ 53)" using assms(2) by (simp only: of_int_less_iff)
    then have "(of_int v :: rat) < w" using w(2) by simp
    then show ?thesis using w(1) by simp
  qed
  then show ?thesis using False assms by (auto simp: roundTrips_def)
qed

lemma shortestAt_safe:
  assumes "0 \<le> v" "v < 2 ^ 53"
  shows "shortestAt v z = None \<or> shortestAt v z = Some v"
proof -
  have "\<not> roundTrips v (v div 10 ^ z * 10 ^ z + 10 ^ z)"
  proof -
    have "v mod 10 ^ z < 10 ^ z" by simp
    then have "v < v div 10 ^ z * 10 ^ z + 10 ^ z"
      using div_mult_mod_eq [of v "10 ^ z"] by linarith
    then show ?thesis using roundTrips_safe [OF assms] by simp
  qed
  then show ?thesis
    using roundTrips_safe [OF assms, of "v div 10 ^ z * 10 ^ z"]
    by (auto simp: shortestAt_def Let_def)
qed

lemma shortestFrom_safe:
  assumes "0 \<le> v" "v < 2 ^ 53"
  shows "shortestFrom v z = v"
proof (induction z)
  case 0
  then show ?case by simp
next
  case (Suc z)
  then show ?case using shortestAt_safe [OF assms, of "Suc z"] by auto
qed

lemma numberToString_safe:
  assumes "0 \<le> v" "v < 2 ^ 53"
  shows "numberToString P (Fin (of_int v)) = decimal v"
proof -
  have "(of_int v :: rat) < of_int (2 ^ 53)" using assms(2) by (simp only: of_int_less_iff)
  also have "\<dots> < 10 ^ 21" by simp
  finally have "\<bar>of_int v :: rat\<bar> < 10 ^ 21" using assms(1) by simp
  then show ?thesis
    using assms by (simp add: shortest_def shortestFrom_safe)
qed

section \<open>The size parser\<close>

lemma upper_fixes_space: "isWhiteSpace c \<Longrightarrow> \<not> (0x61 \<le> c \<and> c \<le> 0x7A)"
  unfolding isWhiteSpace_def by (auto simp: word_le_nat_alt)

lemma upper_fixes_num: "isNumChar c \<Longrightarrow> \<not> (0x61 \<le> c \<and> c \<le> 0x7A)"
  unfolding isNumChar_def isDigit_def by (auto simp: word_le_nat_alt)

lemma unit_head:
  assumes "toUpperCase u \<in> set unitNames"
  shows "u \<noteq> [] \<and> \<not> isWhiteSpace (hd u) \<and> \<not> isNumChar (hd u)"
proof -
  from assms have ne: "u \<noteq> []" by (auto simp: unitNames_def toUpperCase_def str_def)
  then obtain c cs where u: "u = c # cs" by (cases u) auto
  let ?up = "if 0x61 \<le> c \<and> c \<le> 0x7A then c - 0x20 else c"
  from assms u have h: "?up \<in> {0x47, 0x4D, 0x54, 0x4B, 0x42}"
    by (auto simp: unitNames_def toUpperCase_def str_def)
  have "\<not> isWhiteSpace c"
  proof
    assume w: "isWhiteSpace c"
    then have "?up = c" using upper_fixes_space by auto
    with h w show False by (auto simp: isWhiteSpace_def)
  qed
  moreover have "\<not> isNumChar c"
  proof
    assume w: "isNumChar c"
    then have "?up = c" using upper_fixes_num by auto
    with h w show False by (auto simp: isNumChar_def isDigit_def)
  qed
  ultimately show ?thesis using u by simp
qed

lemma space_not_num: "isWhiteSpace c \<Longrightarrow> \<not> isNumChar c"
  unfolding isWhiteSpace_def isNumChar_def isDigit_def by (auto simp: word_le_nat_alt)

lemma takeWhile_run:
  "list_all P xs \<Longrightarrow> ys = [] \<or> \<not> P (hd ys) \<Longrightarrow> takeWhile P (xs @ ys) = xs"
  by (induction xs) (auto, cases ys, auto)

lemma dropWhile_run:
  "list_all P xs \<Longrightarrow> ys = [] \<or> \<not> P (hd ys) \<Longrightarrow> dropWhile P (xs @ ys) = ys"
  by (induction xs) (auto, cases ys, auto)

lemma sizeShape_match:
  assumes "sizeShape s num ws u"
  shows "sizeMatch s = Some (num, if u = [] then None else Some u)"
proof -
  from assms have s: "s = num @ ws @ u" and n: "num \<noteq> []" "list_all isNumChar num"
    and w: "list_all isWhiteSpace ws" and u: "u = [] \<or> toUpperCase u \<in> set unitNames"
    by (auto simp: sizeShape_def)
  have uh: "u = [] \<or> (\<not> isWhiteSpace (hd u) \<and> \<not> isNumChar (hd u))"
    using u unit_head by blast
  have "ws @ u = [] \<or> \<not> isNumChar (hd (ws @ u))"
    using w uh space_not_num by (cases ws) auto
  then have t: "takeWhile isNumChar s = num" and d: "dropWhile isNumChar s = ws @ u"
    unfolding s using n(2) by (simp_all add: takeWhile_run dropWhile_run)
  have r: "dropWhile isWhiteSpace (ws @ u) = u"
    using w uh by (intro dropWhile_run) auto
  show ?thesis using n(1) u by (auto simp: sizeMatch_def t d r Let_def)
qed

lemma sizeMatch_shape:
  assumes "sizeMatch s = Some (num, m2)"
  shows "\<exists>ws u. sizeShape s num ws u \<and> m2 = (if u = [] then None else Some u)"
proof -
  let ?r = "dropWhile isNumChar s"
  let ?ws = "takeWhile isWhiteSpace ?r"
  let ?u = "dropWhile isWhiteSpace ?r"
  from assms have num: "num = takeWhile isNumChar s" "num \<noteq> []"
    and u: "?u = [] \<or> toUpperCase ?u \<in> set unitNames"
    and m2: "m2 = (if ?u = [] then None else Some ?u)"
    by (auto simp: sizeMatch_def Let_def split: if_splits)
  have "s = num @ ?ws @ ?u" by (simp add: num)
  moreover have "list_all isNumChar num" "list_all isWhiteSpace ?ws"
    by (auto simp: num list_all_iff dest: set_takeWhileD)
  ultimately have "sizeShape s num ?ws ?u" using num(2) u by (simp add: sizeShape_def)
  with m2 show ?thesis by blast
qed

lemma units_power:
  assumes "u = [] \<or> toUpperCase u \<in> set unitNames"
  shows "(case units (toUpperCase (case (if u = [] then None else Some u) of None \<Rightarrow> str ''B'' | Some v \<Rightarrow> v))
          of None \<Rightarrow> 1 | Some k \<Rightarrow> k) = 1024 ^ unitPower u"
  using assms
  by (auto simp: units_def unitPower_def unitNames_def toUpperCase_def str_def)

lemma parseSize_of_shape:
  assumes "sizeShape s num ws u"
  shows "parseSize s = Math_floor (times (parseFloat num) (1024 ^ unitPower u))"
proof -
  from assms have ne: "s \<noteq> []" and u: "u = [] \<or> toUpperCase u \<in> set unitNames"
    by (auto simp: sizeShape_def)
  show ?thesis
    using ne sizeShape_match [OF assms] units_power [OF u]
    by (simp add: parseSize_def Let_def)
qed

lemma parseSize_no_shape:
  assumes "\<forall>num ws u. \<not> sizeShape s num ws u"
  shows "parseSize s = Fin 0"
proof (cases "sizeMatch s")
  case None
  then show ?thesis by (simp add: parseSize_def)
next
  case (Some a)
  then obtain num m2 where "sizeMatch s = Some (num, m2)" by (cases a) auto
  with sizeMatch_shape assms show ?thesis by blast
qed

lemma parseSize_samples:
  "parseSize (str ''10GB'') = Fin (10 * 1024 ^ 3)" "parseSize [] = Fin 0"
  "parseSize (str ''garbage'') = Fin 0" "parseSize (str ''5'') = Fin 5"
  by code_simp+

lemma digitsValue_nonneg: "list_all isDigit ds \<Longrightarrow> 0 \<le> acc \<Longrightarrow> 0 \<le> digitsValue acc ds"
proof (induction ds arbitrary: acc)
  case Nil
  then show ?case by simp
next
  case (Cons c cs)
  have "48 \<le> uint c"
    using Cons.prems(1) by (simp add: isDigit_def word_le_def)
  then have "0 \<le> acc * 10 + digitValue c" using Cons.prems(2) by (simp add: digitValue_def)
  then show ?case using Cons by simp
qed

lemma parseFloat_digits:
  assumes "ds \<noteq> []" "list_all isDigit ds" "digitsValue 0 ds < 2 ^ 53"
  shows "parseFloat ds = Fin (of_int (digitsValue 0 ds))"
proof -
  have t: "takeWhile isDigit ds = ds" "dropWhile isDigit ds = []"
    using assms(2) by (simp_all add: list_all_iff)
  have "0 \<le> digitsValue 0 ds" using assms(2) by (simp add: digitsValue_nonneg)
  then show ?thesis
    using assms(1,3) by (simp add: parseFloat_def t toDouble_int)
qed

lemma digit_numchar: "list_all isDigit ds \<Longrightarrow> list_all isNumChar ds"
  by (simp add: list_all_iff isNumChar_def)

lemma unitPower_le: "unitPower u \<le> 4"
  by (simp add: unitPower_def)

lemma parseSize_integer:
  assumes "ds \<noteq> []" "list_all isDigit ds" "digitsValue 0 ds < 2 ^ 53"
    and "list_all isWhiteSpace ws" and "u = [] \<or> toUpperCase u \<in> set unitNames"
  shows "parseSize (ds @ ws @ u) = Fin (of_int (digitsValue 0 ds * 1024 ^ unitPower u))"
proof -
  let ?v = "digitsValue 0 ds" and ?k = "unitPower u"
  have sh: "sizeShape (ds @ ws @ u) ds ws u"
    using assms by (simp add: sizeShape_def digit_numchar)
  have v0: "0 \<le> ?v" using assms(2) by (simp add: digitsValue_nonneg)
  have "(of_int (?v * 1024 ^ ?k) :: rat) < 2 ^ 1024"
  proof -
    have "?v * 1024 ^ ?k < 2 ^ 53 * 1024 ^ ?k" using assms(3) by simp
    also have "\<dots> \<le> 2 ^ 53 * (1024 :: int) ^ 4"
      using unitPower_le [of u] by (intro mult_left_mono power_increasing) simp_all
    also have "\<dots> = 2 ^ 93" by simp
    finally have "?v * 1024 ^ ?k < 2 ^ 93" .
    then have "(of_int (?v * 1024 ^ ?k) :: rat) < of_int (2 ^ 93)" by (simp only: of_int_less_iff)
    also have "\<dots> = 2 ^ 93" by simp
    also have "\<dots> < (2::rat) ^ 1024" by (rule power_strict_increasing) simp_all
    finally show ?thesis .
  qed
  moreover have "(0::rat) \<le> of_int (?v * 1024 ^ ?k)" using v0 by simp
  ultimately have "\<not> overflows (of_int (?v * 1024 ^ ?k))"
    by (subst overflows_iff) auto
  then show ?thesis
    using parseSize_of_shape [OF sh] parseFloat_digits [OF assms(1,2,3)] by simp
qed

text \<open>
  Claim C7. \<open>parseSize\<close> matches the whole string as it is given and does not trim it:
  a non-empty run of digits and dots, then whitespace, then nothing or a unit name out
  of B, KB, MB, GB, TB in any letter case. On a match the result is the floor of the
  number that \<open>parseFloat\<close> reads from the run times the power of 1024 of the unit (no
  unit means bytes); for a run of digits that reads an integer below \<open>2\<^sup>5\<^sup>3\<close> it is exactly
  that integer times the multiplier. A string of any other shape, the empty string
  included, gives 0, and the four sample values of the specification hold.

  \<open>buildSubscriptionHeaders\<close> trims a size field in its guard and then hands the
  untrimmed string to \<open>parseSize\<close>, while for expire and name it hands on the trimmed
  one. So \<open>upload = " 10GB"\<close> passes the guard and is reported as \<open>upload=0\<close>, where
  the trimmed string gives 10 GiB. The run of digits and dots need not be a number
  either: \<open>"."\<close> gives NaN, written \<open>upload=NaN\<close>, and \<open>"1.2.3"\<close> gives 1.
\<close>

theorem parseSize_whole_string:
  "(sizeShape s num ws u \<longrightarrow>
      parseSize s = Math_floor (times (parseFloat num) (1024 ^ unitPower u))
      \<and> (\<forall>q. parseFloat num = Fin q \<and> 0 \<le> q \<and> q * 1024 ^ unitPower u < 2 ^ 1024 \<longrightarrow>
               parseSize s = Fin (of_int \<lfloor>q * 1024 ^ unitPower u\<rfloor>)))
   \<and> ((\<forall>num ws u. \<not> sizeShape s num ws u) \<longrightarrow> parseSize s = Fin 0)
   \<and> (ds \<noteq> [] \<and> list_all isDigit ds \<and> digitsValue 0 ds < 2 ^ 53 \<and> list_all isWhiteSpace sp
        \<and> (un = [] \<or> toUpperCase un \<in> set unitNames) \<longrightarrow>
        parseSize (ds @ sp @ un) = Fin (of_int (digitsValue 0 ds * 1024 ^ unitPower un)))
   \<and> parseSize (str ''10GB'') = Fin (10 * 1024 ^ 3)
   \<and> parseSize [] = Fin 0
   \<and> parseSize (str ''garbage'') = Fin 0
   \<and> parseSize (str ''5'') = Fin 5
   \<and> nonBlank (Some (str '' 10GB''))
   \<and> parseSize (str '' 10GB'') = Fin 0
   \<and> parseSize (trim (str '' 10GB'')) = Fin (10 * 1024 ^ 3)
   \<and> buildSubscriptionHeaders P (Some (noInfo\<lparr>upload := Some (str '' 10GB'')\<rparr>))
      = Inr [(str ''subscription-userinfo'', str ''upload=0'')]
   \<and> buildSubscriptionHeaders P (Some (noInfo\<lparr>upload := Some (str ''10GB'')\<rparr>))
      = Inr [(str ''subscription-userinfo'', str ''upload=10737418240'')]
   \<and> parseSize (str ''.'') = NaN
   \<and> buildSubscriptionHeaders P (Some (noInfo\<lparr>upload := Some (str ''.'')\<rparr>))
      = Inr [(str ''subscription-userinfo'', str ''upload=NaN'')]
   \<and> parseSize (str ''1.2.3'') = Fin 1"
proof -
  have untrimmed: "nonBlank (Some (str '' 10GB''))"
    "parseSize (str '' 10GB'') = Fin 0"
    "parseSize (trim (str '' 10GB'')) = Fin (10 * 1024 ^ 3)"
    "buildSubscriptionHeaders P (Some (noInfo\<lparr>upload := Some (str '' 10GB'')\<rparr>))
      = Inr [(str ''subscription-userinfo'', str ''upload=0'')]"
    "buildSubscriptionHeaders P (Some (noInfo\<lparr>upload := Some (str ''10GB'')\<rparr>))
      = Inr [(str ''subscription-userinfo'', str ''upload=10737418240'')]"
    "parseSize (str ''.'') = NaN"
    "buildSubscriptionHeaders P (Some (noInfo\<lparr>upload := Some (str ''.'')\<rparr>))
      = Inr [(str ''subscription-userinfo'', str ''upload=NaN'')]"
    "parseSize (str ''1.2.3'') = Fin 1"
    by code_simp+
  have "parseSize s = Fin (of_int \<lfloor>q * 1024 ^ unitPower u\<rfloor>)"
    if "sizeShape s num ws u" "parseFloat num = Fin q" "0 \<le> q" "q * 1024 ^ unitPower u < 2 ^ 1024"
    for q
  proof -
    have "\<not> overflows (q * 1024 ^ unitPower u)"
      using that(3,4) by (subst overflows_iff) auto
    then show ?thesis
      using parseSize_of_shape [OF that(1)] that(2) by simp
  qed
  then have "(sizeShape s num ws u \<longrightarrow>
      parseSize s = Math_floor (times (parseFloat num) (1024 ^ unitPower u))
      \<and> (\<forall>q. parseFloat num = Fin q \<and> 0 \<le> q \<and> q * 1024 ^ unitPower u < 2 ^ 1024 \<longrightarrow>
               parseSize s = Fin (of_int \<lfloor>q * 1024 ^ unitPower u\<rfloor>)))
   \<and> ((\<forall>num ws u. \<not> sizeShape s num ws u) \<longrightarrow> parseSize s = Fin 0)
   \<and> (ds \<noteq> [] \<and> list_all isDigit ds \<and> digitsValue 0 ds < 2 ^ 53 \<and> list_all isWhiteSpace sp
        \<and> (un = [] \<or> toUpperCase un \<in> set unitNames) \<longrightarrow>
        parseSize (ds @ sp @ un) = Fin (of_int (digitsValue 0 ds * 1024 ^ unitPower un)))"
    using parseSize_of_shape [of s num ws u] parseSize_no_shape [of s]
      parseSize_integer [of ds sp un]
    by blast
  then show ?thesis
    using parseSize_samples untrimmed by blast
qed

lemma garbage_no_shape: "\<forall>num ws u. \<not> sizeShape (str ''garbage'') num ws u"
proof (intro allI notI)
  fix num ws u
  assume "sizeShape (str ''garbage'') num ws u"
  then have "sizeMatch (str ''garbage'') \<noteq> None" using sizeShape_match by fastforce
  moreover have "sizeMatch (str ''garbage'') = None" by code_simp
  ultimately show False by simp
qed

lemma sample_shape: "sizeShape (str ''1.5 mb'') (str ''1.5'') (str '' '') (str ''mb'')"
  by code_simp

lemma sample_float: "parseFloat (str ''1.5'') = Fin (3 / 2)"
  by code_simp

theorem parseSize_witness:
  "sizeShape (str ''1.5 mb'') (str ''1.5'') (str '' '') (str ''mb'')
   \<and> parseFloat (str ''1.5'') = Fin (3 / 2)
   \<and> parseSize (str ''1.5 mb'') = Fin 1572864
   \<and> (\<forall>num ws u. \<not> sizeShape (str ''garbage'') num ws u)
   \<and> parseSize (str ''garbage'') = Fin 0
   \<and> list_all isDigit (str ''42'') \<and> digitsValue 0 (str ''42'') = 42
   \<and> toUpperCase (str ''kb'') \<in> set unitNames
   \<and> parseSize (str ''42'' @ str '' '' @ str ''kb'') = Fin 43008"
proof -
  have i: "str ''42'' \<noteq> []" "list_all isDigit (str ''42'')" "digitsValue 0 (str ''42'') = 42"
    "list_all isWhiteSpace (str '' '')" "toUpperCase (str ''kb'') \<in> set unitNames"
    "unitPower (str ''kb'') = 1"
    by code_simp+
  have "digitsValue 0 (str ''42'') < 2 ^ 53" by (simp add: i(3))
  with parseSize_whole_string [of _ _ _ _ "str ''42''" "str '' ''" "str ''kb''"] i
  have j: "parseSize (str ''42'' @ str '' '' @ str ''kb'') = Fin 43008" by simp
  have p: "unitPower (str ''mb'') = 2" by code_simp
  have h: "parseFloat (str ''1.5'') = Fin (3 / 2) \<and> 0 \<le> (3 / 2 :: rat)
           \<and> (3 / 2 :: rat) * 1024 ^ unitPower (str ''mb'') < 2 ^ 1024"
    using sample_float p by simp
  from parseSize_whole_string [of "str ''1.5 mb''" "str ''1.5''" "str '' ''" "str ''mb''"]
    sample_shape h
  have "parseSize (str ''1.5 mb'') = Fin (of_int \<lfloor>(3 / 2 :: rat) * 1024 ^ unitPower (str ''mb'')\<rfloor>)"
    by blast
  moreover have "\<lfloor>(3 / 2 :: rat) * 1024 ^ 2\<rfloor> = 1572864" by simp
  ultimately have "parseSize (str ''1.5 mb'') = Fin 1572864" by (simp add: p)
  then show ?thesis
    using sample_shape sample_float garbage_no_shape i(2,3,5) j
      parseSize_whole_string [of "str ''garbage''"] by blast
qed

section \<open>The header builder\<close>

lemma trim_Nil [simp]: "trim [] = []"
  by (simp add: trim_def)

lemma nonBlank_iff: "nonBlank x \<longleftrightarrow> (\<exists>v. x = Some v \<and> trim v \<noteq> [])"
  by (cases x) (auto simp: nonBlank_def)

lemma sizePart_spec: "sizePart P field x = specSizePart P field x"
  by (cases x) (auto simp: sizePart_def specSizePart_def nonBlank_def)

lemma sizePart_blank: "\<not> nonBlank x \<Longrightarrow> sizePart P field x = []"
  by (simp add: sizePart_def)

lemma expirePart_blank: "\<not> nonBlank x \<Longrightarrow> expirePart P x = []"
  by (simp add: expirePart_def)

lemma infoParts_custom: "infoParts P si \<noteq> [] \<Longrightarrow> hasCustomInfo si"
proof -
  assume a: "infoParts P si \<noteq> []"
  then have n: "nonBlank (upload si) \<or> nonBlank (download si) \<or> nonBlank (total si)
      \<or> nonBlank (expire si)"
    using sizePart_blank expirePart_blank by (fastforce simp: infoParts_def)
  then have "0 < keysLength si"
    by (auto simp: keysLength_def nonBlank_def split: option.splits)
  with n show ?thesis by (simp add: hasCustomInfo_def)
qed

lemma userinfo_spec:
  "(if hasCustomInfo si \<and> infoParts P si \<noteq> []
    then [(str ''subscription-userinfo'', join (str ''; '') (infoParts P si))] else [])
   = specUserinfo P si"
  using infoParts_custom [of P si]
  by (auto simp: specUserinfo_def infoParts_def sizePart_spec Let_def)

lemma unreserved_not_surrogate:
  "isUnreserved c \<Longrightarrow> \<not> isLeadSurrogate c \<and> \<not> isTrailSurrogate c"
  unfolding isUnreserved_def isLeadSurrogate_def isTrailSurrogate_def
  by (auto simp: word_le_nat_alt)

lemma lead_not_trail: "isLeadSurrogate c \<Longrightarrow> \<not> isTrailSurrogate c"
  unfolding isLeadSurrogate_def isTrailSurrogate_def by (auto simp: word_le_nat_alt)

lemma encode_plain:
  "\<not> isLeadSurrogate c \<Longrightarrow>
   (\<exists>enc. encodeURIComponent (c # cs) = Inr enc)
     \<longleftrightarrow> \<not> isTrailSurrogate c \<and> (\<exists>enc. encodeURIComponent cs = Inr enc)"
  using unreserved_not_surrogate [of c]
  by (cases "encodeURIComponent cs") (auto simp: map_sum_def)

lemma encode_wellFormed: "(\<exists>enc. encodeURIComponent s = Inr enc) \<longleftrightarrow> wellFormed s"
proof (induction s rule: wellFormed.induct)
  case 1
  then show ?case by simp
next
  case (2 c)
  then show ?case
    using unreserved_not_surrogate [of c] by (auto simp: map_sum_def)
next
  case (3 c d cs)
  show ?case
  proof (cases "isLeadSurrogate c")
    case True
    then have "\<not> isUnreserved c" "\<not> isTrailSurrogate c"
      using unreserved_not_surrogate lead_not_trail by auto
    with True 3(1) show ?thesis
      by (cases "encodeURIComponent cs") (auto simp: map_sum_def)
  next
    case False
    with 3(2) show ?thesis
      using encode_plain [OF False, of "d # cs"] by simp
  qed
qed

lemma build_Some:
  "buildSubscriptionHeaders P (Some si) =
     (if nonBlank (name si)
      then (case encodeURIComponent (trim (the (name si))) of
              Inl e \<Rightarrow> Inl e
            | Inr enc \<Rightarrow>
                Inr (specUserinfo P si
                     @ [(str ''content-disposition'',
                         str ''attachment; filename*=UTF-8'' @ [0x27, 0x27] @ enc)]))
      else Inr (specUserinfo P si))"
  by (simp add: buildSubscriptionHeaders_def userinfo_spec Let_def)

lemma build_samples:
  "buildSubscriptionHeaders P
     (Some (noInfo\<lparr>upload := Some (str ''1GB''), download := Some (str ''2GB'')\<rparr>))
   = Inr [(str ''subscription-userinfo'', str ''upload=1073741824; download=2147483648'')]"
  "buildSubscriptionHeaders P (Some (noInfo\<lparr>name := Some (str ''My Sub'')\<rparr>))
   = Inr [(str ''content-disposition'', str ''attachment; filename*=UTF-8'' @ [0x27, 0x27]
           @ str ''My%20Sub'')]"
  by code_simp+

lemma digit_not_space: "isDigit c \<Longrightarrow> \<not> isWhiteSpace c"
  by (auto simp: isDigit_def isWhiteSpace_def word_le_def)

lemma trim_nonempty:
  assumes "s \<noteq> []" "\<not> isWhiteSpace (hd s)"
  shows "trim s \<noteq> []"
proof -
  have a: "dropWhile isWhiteSpace s = s"
    using assms by (cases s) auto
  have "hd s \<in> set (rev s)" using assms(1) by simp
  then have "dropWhile isWhiteSpace (rev s) \<noteq> []"
    using assms(2) by (auto simp: dropWhile_eq_Nil_conv)
  then show ?thesis by (simp add: trim_def a)
qed

lemma sizePart_safe:
  assumes "ds \<noteq> []" "list_all isDigit ds" "list_all isWhiteSpace ws"
    and "u = [] \<or> toUpperCase u \<in> set unitNames"
    and "digitsValue 0 ds * 1024 ^ unitPower u < 2 ^ 53"
  shows "specSizePart P f (Some (ds @ ws @ u))
         = [str f @ str ''='' @ decimal (digitsValue 0 ds * 1024 ^ unitPower u)]"
proof -
  let ?v = "digitsValue 0 ds" and ?k = "unitPower u"
  have v0: "0 \<le> ?v" using assms(2) by (simp add: digitsValue_nonneg)
  have "?v * 1 \<le> ?v * 1024 ^ ?k" using v0 by (intro mult_left_mono) simp_all
  then have v53: "?v < 2 ^ 53" using assms(5) by simp
  have p: "parseSize (ds @ ws @ u) = Fin (of_int (?v * 1024 ^ ?k))"
    using assms(1,2) v53 assms(3,4) by (rule parseSize_integer)
  have "isDigit (hd ds)" using assms(1,2) by (cases ds) simp_all
  then have "\<not> isWhiteSpace (hd (ds @ ws @ u))"
    using assms(1) by (simp add: digit_not_space)
  then have t: "trim (ds @ ws @ u) \<noteq> []"
    using assms(1) by (intro trim_nonempty) simp_all
  have "0 \<le> ?v * 1024 ^ ?k" using v0 by simp
  then have "numberToString P (Fin (of_int (?v * 1024 ^ ?k))) = decimal (?v * 1024 ^ ?k)"
    using assms(5) by (rule numberToString_safe)
  then show ?thesis using t p by (simp add: specSizePart_def)
qed

text \<open>
  Claim C5. \<open>buildSubscriptionHeaders\<close> gives no header for a null info. Otherwise each
  of upload, download and total is included exactly when its string is non-empty after
  trimming, as the part \<open>field=parseSize(value)\<close> with the number written as a template
  literal writes it, in the order upload, download, total, then expire; the parts, when
  there is one, are joined with \<open>"; "\<close> as the value of \<open>subscription-userinfo\<close>.
  Independently of the parts, a name that is non-empty after trimming and can be
  percent-encoded gives the header \<open>content-disposition: attachment; filename*=UTF-8''\<close>
  followed by the percent-encoded trimmed name. The two sample values of the
  specification hold. A size written as digits and a unit whose value in bytes is below
  \<open>2\<^sup>5\<^sup>3\<close> is written with the digits of that value, and a size above \<open>2\<^sup>5\<^sup>3\<close> with the
  shortest digits that read back as the same Number.

  A name with an unpaired surrogate cannot be percent-encoded: \<open>encodeURIComponent\<close>
  throws, nothing catches it, and no header is returned at all, the parts already built
  included. That is the input \<open>{upload: "1GB", name: "a\uDC00b"}\<close>.
\<close>

theorem buildSubscriptionHeaders_parts:
  "buildSubscriptionHeaders P None = Inr []
   \<and> ((\<forall>n. name si = Some n \<longrightarrow> trim n = []) \<longrightarrow>
        buildSubscriptionHeaders P (Some si) = Inr (specUserinfo P si))
   \<and> (name si = Some n \<and> trim n \<noteq> [] \<and> wellFormed (trim n) \<longrightarrow>
        (\<exists>enc. encodeURIComponent (trim n) = Inr enc
               \<and> buildSubscriptionHeaders P (Some si)
                   = Inr (specUserinfo P si
                          @ [(str ''content-disposition'',
                              str ''attachment; filename*=UTF-8'' @ [0x27, 0x27] @ enc)])))
   \<and> (ds \<noteq> [] \<and> list_all isDigit ds \<and> list_all isWhiteSpace sp
        \<and> (un = [] \<or> toUpperCase un \<in> set unitNames)
        \<and> digitsValue 0 ds * 1024 ^ unitPower un < 2 ^ 53 \<longrightarrow>
        specSizePart P field (Some (ds @ sp @ un))
        = [str field @ str ''='' @ decimal (digitsValue 0 ds * 1024 ^ unitPower un)])
   \<and> buildSubscriptionHeaders P
        (Some (noInfo\<lparr>upload := Some (str ''1GB''), download := Some (str ''2GB'')\<rparr>))
      = Inr [(str ''subscription-userinfo'', str ''upload=1073741824; download=2147483648'')]
   \<and> buildSubscriptionHeaders P (Some (noInfo\<lparr>name := Some (str ''My Sub'')\<rparr>))
      = Inr [(str ''content-disposition'', str ''attachment; filename*=UTF-8'' @ [0x27, 0x27]
              @ str ''My%20Sub'')]
   \<and> buildSubscriptionHeaders P (Some (noInfo\<lparr>upload := Some (str ''32768TB'')\<rparr>))
      = Inr [(str ''subscription-userinfo'', str ''upload=36028797018963970'')]
   \<and> trim [0x61, 0xDC00, 0x62] \<noteq> []
   \<and> buildSubscriptionHeaders P
        (Some (noInfo\<lparr>upload := Some (str ''1GB''), name := Some [0x61, 0xDC00, 0x62]\<rparr>))
      = Inl URIError"
proof -
  have a: "buildSubscriptionHeaders P None = Inr []"
    by (simp add: buildSubscriptionHeaders_def)
  have d: "buildSubscriptionHeaders P (Some (noInfo\<lparr>upload := Some (str ''32768TB'')\<rparr>))
      = Inr [(str ''subscription-userinfo'', str ''upload=36028797018963970'')]"
    "trim [0x61, 0xDC00, 0x62] \<noteq> []"
    "buildSubscriptionHeaders P
        (Some (noInfo\<lparr>upload := Some (str ''1GB''), name := Some [0x61, 0xDC00, 0x62]\<rparr>))
      = Inl URIError"
    by code_simp+
  have b: "buildSubscriptionHeaders P (Some si) = Inr (specUserinfo P si)"
    if "\<forall>n. name si = Some n \<longrightarrow> trim n = []"
    using that by (auto simp add: build_Some nonBlank_iff)
  have c: "\<exists>enc. encodeURIComponent (trim n) = Inr enc
               \<and> buildSubscriptionHeaders P (Some si)
                   = Inr (specUserinfo P si
                          @ [(str ''content-disposition'',
                              str ''attachment; filename*=UTF-8'' @ [0x27, 0x27] @ enc)])"
    if "name si = Some n" "trim n \<noteq> []" "wellFormed (trim n)"
  proof -
    from that(3) obtain enc where "encodeURIComponent (trim n) = Inr enc"
      using encode_wellFormed by blast
    then show ?thesis using that(1,2) by (simp add: build_Some nonBlank_iff)
  qed
  have e: "specSizePart P field (Some (ds @ sp @ un))
        = [str field @ str ''='' @ decimal (digitsValue 0 ds * 1024 ^ unitPower un)]"
    if "ds \<noteq> []" "list_all isDigit ds" "list_all isWhiteSpace sp"
      "un = [] \<or> toUpperCase un \<in> set unitNames"
      "digitsValue 0 ds * 1024 ^ unitPower un < 2 ^ 53"
    using that by (rule sizePart_safe)
  show ?thesis using a b c d e build_samples by blast
qed

theorem buildSubscriptionHeaders_parts_witness:
  "name (noInfo\<lparr>total := Some (str ''5''), name := Some (str '' My Sub '')\<rparr>)
     = Some (str '' My Sub '')
   \<and> trim (str '' My Sub '') = str ''My Sub''
   \<and> wellFormed (trim (str '' My Sub ''))
   \<and> buildSubscriptionHeaders samplePlatform
        (Some (noInfo\<lparr>total := Some (str ''5''), name := Some (str '' My Sub '')\<rparr>))
      = Inr [(str ''subscription-userinfo'', str ''total=5''),
             (str ''content-disposition'', str ''attachment; filename*=UTF-8'' @ [0x27, 0x27]
              @ str ''My%20Sub'')]
   \<and> buildSubscriptionHeaders samplePlatform (Some noInfo) = Inr []
   \<and> list_all isDigit (str ''42'') \<and> digitsValue 0 (str ''42'') = 42
   \<and> toUpperCase (str ''kb'') \<in> set unitNames \<and> unitPower (str ''kb'') = 1
   \<and> specSizePart samplePlatform ''total'' (Some (str ''42 kb'')) = [str ''total=43008'']"
proof -
  let ?si = "noInfo\<lparr>total := Some (str ''5''), name := Some (str '' My Sub '')\<rparr>"
  have i: "str ''42'' \<noteq> []" "list_all isDigit (str ''42'')" "digitsValue 0 (str ''42'') = 42"
    "list_all isWhiteSpace (str '' '')" "toUpperCase (str ''kb'') \<in> set unitNames"
    "unitPower (str ''kb'') = 1"
    by code_simp+
  have j: "str ''42'' @ str '' '' @ str ''kb'' = str ''42 kb''"
    "str ''total'' @ str ''='' @ decimal 43008 = str ''total=43008''"
    by code_simp+
  have "digitsValue 0 (str ''42'') * 1024 ^ unitPower (str ''kb'') < 2 ^ 53"
    by (simp add: i(3,6))
  with buildSubscriptionHeaders_parts
         [of samplePlatform _ _ "str ''42''" "str '' ''" "str ''kb''" "''total''"] i
  have "specSizePart samplePlatform ''total'' (Some (str ''42'' @ str '' '' @ str ''kb''))
        = [str ''total'' @ str ''='' @ decimal (digitsValue 0 (str ''42'')
             * 1024 ^ unitPower (str ''kb''))]"
    by blast
  then have k: "specSizePart samplePlatform ''total'' (Some (str ''42 kb''))
                = [str ''total=43008'']"
    by (simp add: i(3,6) j)
  have n: "name ?si = Some (str '' My Sub '')" by simp
  have t: "trim (str '' My Sub '') = str ''My Sub''" by code_simp
  have w: "wellFormed (trim (str '' My Sub ''))" by code_simp
  have tn: "trim (str '' My Sub '') \<noteq> []" by code_simp
  have e: "encodeURIComponent (trim (str '' My Sub '')) = Inr (str ''My%20Sub'')" by code_simp
  have u: "specUserinfo samplePlatform ?si = [(str ''subscription-userinfo'', str ''total=5'')]"
    by code_simp
  have u0: "specUserinfo samplePlatform noInfo = []" by code_simp
  have n0: "\<forall>n. name noInfo = Some n \<longrightarrow> trim n = []" by (simp add: noInfo_def)
  from buildSubscriptionHeaders_parts [of samplePlatform ?si "str '' My Sub ''"] n tn w
  obtain enc where "encodeURIComponent (trim (str '' My Sub '')) = Inr enc"
    "buildSubscriptionHeaders samplePlatform (Some ?si)
       = Inr (specUserinfo samplePlatform ?si
              @ [(str ''content-disposition'',
                  str ''attachment; filename*=UTF-8'' @ [0x27, 0x27] @ enc)])"
    by blast
  with e u have "buildSubscriptionHeaders samplePlatform (Some ?si)
      = Inr [(str ''subscription-userinfo'', str ''total=5''),
             (str ''content-disposition'', str ''attachment; filename*=UTF-8'' @ [0x27, 0x27]
              @ str ''My%20Sub'')]"
    by auto
  moreover from buildSubscriptionHeaders_parts [of samplePlatform noInfo] n0 u0
  have "buildSubscriptionHeaders samplePlatform (Some noInfo) = Inr []" by auto
  ultimately show ?thesis using n t w i(2,3,5,6) k by blast
qed

text \<open>
  Claim C8. \<open>buildSubscriptionHeaders\<close> raises exactly when the name is non-empty after
  trimming and its trimmed text has an unpaired surrogate; the exception is then the
  URIError of \<open>encodeURIComponent\<close>, and it aborts the whole computation. For every
  other info, whatever upload, download, total and expire hold, it returns a header
  mapping: a size that does not parse is written as 0 and a date that does not parse is
  left out.

  The name \<open>"\uD800"\<close> is such an input. \<open>handleRaw\<close> calls the function with no handler
  around it and after it has written the count or burnt the record, so the read fails
  with the exception while the count has gone up, or the record is gone. \<open>handleSub\<close>
  calls it inside its \<open>try\<close> and answers 502.
\<close>

theorem buildSubscriptionHeaders_raises_iff:
  "buildSubscriptionHeaders P None = Inr []
   \<and> ((\<exists>e. buildSubscriptionHeaders P (Some si) = Inl e)
        \<longleftrightarrow> (\<exists>n. name si = Some n \<and> trim n \<noteq> [] \<and> \<not> wellFormed (trim n)))
   \<and> (\<forall>e. buildSubscriptionHeaders P (Some si) = Inl e \<longrightarrow> e = URIError)
   \<and> buildSubscriptionHeaders P (Some (noInfo\<lparr>name := Some [0xD800]\<rparr>)) = Inl URIError
   \<and> buildSubscriptionHeaders samplePlatform
        (Some (noInfo\<lparr>upload := Some (str ''garbage''), expire := Some (str ''never'')\<rparr>))
      = Inr [(str ''subscription-userinfo'', str ''upload=0'')]
   \<and> fst (handleRaw P 5 (str ''a'')
        (singleStore (sampleMeta\<lparr>subscriptionInfo := Some (noInfo\<lparr>name := Some [0xD800]\<rparr>)\<rparr>)
           (str ''hi''))) = Inl URIError
   \<and> getMeta (snd (handleRaw P 5 (str ''a'')
        (singleStore (sampleMeta\<lparr>subscriptionInfo := Some (noInfo\<lparr>name := Some [0xD800]\<rparr>)\<rparr>)
           (str ''hi'')))) (str ''a'')
      = Some (sampleMeta\<lparr>subscriptionInfo := Some (noInfo\<lparr>name := Some [0xD800]\<rparr>),
                          downloadCount := Some 1\<rparr>)
   \<and> fst (handleRaw P 5 (str ''a'')
        (singleStore (sampleMeta\<lparr>subscriptionInfo := Some (noInfo\<lparr>name := Some [0xD800]\<rparr>),
                                 burnAfterRead := True\<rparr>)
           (str ''hi''))) = Inl URIError
   \<and> getContent (snd (handleRaw P 5 (str ''a'')
        (singleStore (sampleMeta\<lparr>subscriptionInfo := Some (noInfo\<lparr>name := Some [0xD800]\<rparr>),
                                 burnAfterRead := True\<rparr>)
           (str ''hi'')))) (str ''a'') = None
   \<and> statusOf (fst (handleSub (samplePlatform\<lparr>fetch := (\<lambda>_. Fetched sampleUpstream)\<rparr>) 5
        (str ''a'')
        (singleStore (sampleMeta\<lparr>meta_type := str ''subscription'',
                                 subscriptionInfo := Some (noInfo\<lparr>name := Some [0xD800]\<rparr>)\<rparr>)
           (str ''http://x'')))) = Some 502"
  (is "?N \<and> ?I \<and> ?U \<and> ?S")
proof -
  have a: "buildSubscriptionHeaders P None = Inr []"
    by (simp add: buildSubscriptionHeaders_def)
  have samples: ?S
    by (intro conjI) code_simp+
  have u: "e = URIError" if "encodeURIComponent s = Inl e" for s e
    using that
  proof (induction s arbitrary: e rule: wellFormed.induct)
    case 1
    then show ?case by simp
  next
    case (2 c)
    then show ?case by (auto simp: map_sum_def split: if_splits)
  next
    case (3 c d cs)
    show ?case
    proof (cases "isLeadSurrogate c")
      case True
      then have "\<not> isUnreserved c" "\<not> isTrailSurrogate c"
        using unreserved_not_surrogate lead_not_trail by auto
      with True 3(1,3) show ?thesis
        by (cases "encodeURIComponent cs") (auto simp: map_sum_def split: if_splits)
    next
      case False
      have "encodeURIComponent (c # d # cs) =
              (if isUnreserved c then map_sum id ((#) c) (encodeURIComponent (d # cs))
               else if isTrailSurrogate c then Inl URIError
               else map_sum id ((@) (concat (map percent (utf8 (uint c)))))
                      (encodeURIComponent (d # cs)))"
        using False by simp
      with 3(2) [OF False] 3(3) show ?thesis
        by (cases "encodeURIComponent (d # cs)") (auto simp: map_sum_def split: if_splits)
    qed
  qed
  have "?I \<and> ?U"
  proof (cases "nonBlank (name si)")
    case False
    then show ?thesis by (auto simp: build_Some nonBlank_iff)
  next
    case True
    then obtain n where n: "name si = Some n" "trim n \<noteq> []" by (auto simp: nonBlank_iff)
    show ?thesis
    proof (cases "encodeURIComponent (trim n)")
      case (Inl e)
      then have "\<not> wellFormed (trim n)" using encode_wellFormed [of "trim n"] by auto
      with Inl u [OF Inl] n True show ?thesis by (auto simp: build_Some)
    next
      case (Inr enc)
      then have "wellFormed (trim n)" using encode_wellFormed [of "trim n"] by auto
      with Inr n True show ?thesis by (auto simp: build_Some)
    qed
  qed
  with a samples show ?thesis by (intro conjI) (elim conjE, assumption)+
qed

theorem buildSubscriptionHeaders_raises_witness:
  "name (noInfo\<lparr>name := Some [0xD83D, 0xDE00]\<rparr>) = Some [0xD83D, 0xDE00]
   \<and> wellFormed (trim [0xD83D, 0xDE00])
   \<and> (\<forall>e. buildSubscriptionHeaders samplePlatform (Some (noInfo\<lparr>name := Some [0xD83D, 0xDE00]\<rparr>))
          \<noteq> Inl e)
   \<and> name (noInfo\<lparr>name := Some [0xDE00, 0xD83D]\<rparr>) = Some [0xDE00, 0xD83D]
   \<and> trim [0xDE00, 0xD83D] \<noteq> [] \<and> \<not> wellFormed (trim [0xDE00, 0xD83D])
   \<and> buildSubscriptionHeaders samplePlatform (Some (noInfo\<lparr>name := Some [0xDE00, 0xD83D]\<rparr>))
      = Inl URIError"
proof -
  have w: "wellFormed (trim [0xD83D, 0xDE00])" by code_simp
  have t: "trim [0xDE00, 0xD83D] \<noteq> []" "\<not> wellFormed (trim [0xDE00, 0xD83D])" by code_simp+
  from buildSubscriptionHeaders_raises_iff
         [of samplePlatform "noInfo\<lparr>name := Some [0xD83D, 0xDE00]\<rparr>"] w
  have 1: "\<forall>e. buildSubscriptionHeaders samplePlatform
                  (Some (noInfo\<lparr>name := Some [0xD83D, 0xDE00]\<rparr>)) \<noteq> Inl e"
    by auto
  from buildSubscriptionHeaders_raises_iff
         [of samplePlatform "noInfo\<lparr>name := Some [0xDE00, 0xD83D]\<rparr>"] t
  have 2: "buildSubscriptionHeaders samplePlatform
             (Some (noInfo\<lparr>name := Some [0xDE00, 0xD83D]\<rparr>)) = Inl URIError"
    by auto
  show ?thesis using 1 2 w t by simp
qed

subsection \<open>Bare dates\<close>

lemma digit_unit:
  assumes "0 \<le> k" "k \<le> 9"
  shows "uint (48 + word_of_int k :: code_unit) = 48 + k"
proof -
  have "(48 + word_of_int k :: code_unit) = word_of_int (48 + k)"
    by simp
  hence "uint (48 + word_of_int k :: code_unit) = (48 + k) mod 2 ^ 16"
    by (simp only: uint_word_of_int) simp
  also have "\<dots> = 48 + k" using assms by simp
  finally show ?thesis .
qed

lemma digit_char:
  assumes "0 \<le> k" "k \<le> 9"
  shows "isDigit (48 + word_of_int k)" "digitValue (48 + word_of_int k) = k"
    "\<not> isWhiteSpace (48 + word_of_int k)"
  using assms digit_unit [OF assms]
  by (auto simp: isDigit_def digitValue_def isWhiteSpace_def word_le_def word_uint_eq_iff)

lemma pad2_digits:
  assumes "0 \<le> n" "n \<le> 99"
  shows "list_all isDigit (pad2 n)" "digitsValue acc (pad2 n) = acc * 100 + n" "length (pad2 n) = 2"
proof -
  have a: "0 \<le> n div 10" "n div 10 \<le> 9" "0 \<le> n mod 10" "n mod 10 \<le> 9"
    using assms by auto
  show "list_all isDigit (pad2 n)" "length (pad2 n) = 2"
    using a by (simp_all add: pad2_def digit_char)
  have "digitsValue acc (pad2 n) = (acc * 10 + n div 10) * 10 + n mod 10"
    using a by (simp add: pad2_def digit_char)
  also have "\<dots> = acc * 100 + n" by presburger
  finally show "digitsValue acc (pad2 n) = acc * 100 + n" .
qed


lemma pad2_hd:
  assumes "0 \<le> n" "n \<le> 99"
  shows "pad2 n \<noteq> []" "isDigit (hd (pad2 n))" "isDigit (last (pad2 n))"
proof -
  have a: "0 \<le> n div 10" "n div 10 \<le> 9" "0 \<le> n mod 10" "n mod 10 \<le> 9"
    using assms by auto
  show "pad2 n \<noteq> []" "isDigit (hd (pad2 n))" "isDigit (last (pad2 n))"
    using a by (simp_all add: pad2_def digit_char)
qed

lemma trim_id:
  assumes "s \<noteq> []" "\<not> isWhiteSpace (hd s)" "\<not> isWhiteSpace (last s)"
  shows "trim s = s"
proof -
  have a: "dropWhile isWhiteSpace s = s"
    using assms by (cases s) auto
  have "rev s \<noteq> []" "\<not> isWhiteSpace (hd (rev s))"
    using assms by (simp_all add: hd_rev)
  hence "dropWhile isWhiteSpace (rev s) = rev s"
    by (cases "rev s") auto
  thus ?thesis by (simp add: trim_def a)
qed

lemma takeDigits_run:
  "list_all isDigit ds \<Longrightarrow> length ds = n \<Longrightarrow>
   takeDigits n (ds @ rest) = Some (digitsValue 0 ds, rest)"
  by (simp add: takeDigits_def)

lemma digitsValue_append:
  "digitsValue acc (xs @ ys) = digitsValue (digitsValue acc xs) ys"
  by (induction xs arbitrary: acc) simp_all

lemma year_digits:
  assumes "0 \<le> y" "y \<le> 9999"
  shows "list_all isDigit (pad2 (y div 100) @ pad2 (y mod 100))"
    "length (pad2 (y div 100) @ pad2 (y mod 100)) = 4"
    "digitsValue 0 (pad2 (y div 100) @ pad2 (y mod 100)) = y"
proof -
  have a: "0 \<le> y div 100" "y div 100 \<le> 99" "0 \<le> y mod 100" "y mod 100 \<le> 99"
    using assms by auto
  show "list_all isDigit (pad2 (y div 100) @ pad2 (y mod 100))"
    "length (pad2 (y div 100) @ pad2 (y mod 100)) = 4"
    using a by (simp_all add: pad2_digits)
  have "digitsValue 0 (pad2 (y div 100) @ pad2 (y mod 100))
        = digitsValue (digitsValue 0 (pad2 (y div 100))) (pad2 (y mod 100))"
    by (rule digitsValue_append)
  also have "\<dots> = y div 100 * 100 + y mod 100"
    using a by (simp add: pad2_digits)
  finally show "digitsValue 0 (pad2 (y div 100) @ pad2 (y mod 100)) = y"
    by simp
qed


lemma daysBeforeMonth_bounds:
  assumes "1 \<le> m" "m \<le> 12"
  shows "0 \<le> daysBeforeMonth y m" "daysBeforeMonth y m \<le> 335"
proof -
  from assms have "m = 1 \<or> m = 2 \<or> m = 3 \<or> m = 4 \<or> m = 5 \<or> m = 6 \<or> m = 7 \<or> m = 8
      \<or> m = 9 \<or> m = 10 \<or> m = 11 \<or> m = 12"
    by presburger
  thus "0 \<le> daysBeforeMonth y m" "daysBeforeMonth y m \<le> 335"
    by (auto simp: daysBeforeMonth_def)
qed

lemma daysInMonth_le: "daysInMonth y m \<le> 31"
  by (simp add: daysInMonth_def)

lemma makeDay_bounds:
  assumes "0 \<le> y" "y \<le> 9999" "1 \<le> m" "m \<le> 12" "1 \<le> d" "d \<le> daysInMonth y m"
  shows "- 800000 \<le> makeDay y m d" "makeDay y m d \<le> 3000000"
proof -
  have "(0 - 1969) div 4 \<le> (y - 1969) div 4" "(y - 1969) div 4 \<le> (9999 - 1969) div 4"
    "(0 - 1901) div 100 \<le> (y - 1901) div 100" "(y - 1901) div 100 \<le> (9999 - 1901) div 100"
    "(0 - 1601) div 400 \<le> (y - 1601) div 400" "(y - 1601) div 400 \<le> (9999 - 1601) div 400"
    using assms(1,2) by (simp_all only: zdiv_mono1 diff_right_mono zero_less_numeral)
  hence a: "- 750000 \<le> dayFromYear y" "dayFromYear y \<le> 2950000"
    using assms(1,2) by (simp_all add: dayFromYear_def)
  have b: "d \<le> 31"
    using assms(6) daysInMonth_le [of y m] by linarith
  show "- 800000 \<le> makeDay y m d" "makeDay y m d \<le> 3000000"
    using a b assms(5) daysBeforeMonth_bounds [OF assms(3,4), of y]
    by (simp_all add: makeDay_def)
qed

lemma endOfDay_clip:
  assumes "0 \<le> y" "y \<le> 9999" "1 \<le> m" "m \<le> 12" "1 \<le> d" "d \<le> daysInMonth y m"
  shows "\<bar>endOfDayUTC8 y m d\<bar> \<le> 8640000000000000"
  using makeDay_bounds [OF assms] by (simp add: endOfDayUTC8_def)


lemma dash_not_digit: "\<not> isDigit 0x2D"
  by (simp add: isDigit_def)

lemma paddedDate_bare:
  assumes "0 \<le> y" "y \<le> 9999" "0 \<le> m" "m \<le> 99" "0 \<le> d" "d \<le> 99"
  shows "isBareDate (paddedDate y m d)"
proof -
  let ?Y = "pad2 (y div 100) @ pad2 (y mod 100)"
  let ?r1 = "0x2D # pad2 m @ 0x2D # pad2 d"
  let ?r3 = "0x2D # pad2 d"
  have p: "paddedDate y m d = ?Y @ ?r1"
    by (simp add: paddedDate_def)
  have y: "takeWhile isDigit (?Y @ ?r1) = ?Y" "dropWhile isDigit (?Y @ ?r1) = ?r1"
    using year_digits(1) [OF assms(1,2)]
    by (simp_all only: takeWhile_run dropWhile_run list.sel dash_not_digit not_False_eq_True
          simp_thms)
  have m: "takeWhile isDigit (pad2 m @ ?r3) = pad2 m" "dropWhile isDigit (pad2 m @ ?r3) = ?r3"
    using pad2_digits(1) [OF assms(3,4)]
    by (simp_all only: takeWhile_run dropWhile_run list.sel dash_not_digit not_False_eq_True
          simp_thms)
  show ?thesis
    unfolding p isBareDate_def y Let_def
    using m year_digits(2) [OF assms(1,2)] pad2_digits(1,3) [OF assms(3,4)]
      pad2_digits(1,3) [OF assms(5,6)]
    by simp
qed

lemma paddedDate_iso:
  assumes "0 \<le> y" "y \<le> 9999" "1 \<le> m" "m \<le> 12" "1 \<le> d" "d \<le> daysInMonth y m"
  shows "isoDateTime (paddedDate y m d @ str ''T23:59:59+08:00'') = Some (endOfDayUTC8 y m d)"
proof -
  let ?Y = "pad2 (y div 100) @ pad2 (y mod 100)"
  let ?t = "str ''T23:59:59+08:00''"
  have d: "0 \<le> d" "d \<le> 99" and m: "0 \<le> m" "m \<le> 99"
    using assms daysInMonth_le [of y m] by linarith+
  have p: "paddedDate y m d @ ?t = ?Y @ (0x2D # (pad2 m @ (0x2D # (pad2 d @ ?t))))"
    by (simp add: paddedDate_def)
  have 1: "takeDigits 4 (?Y @ (0x2D # (pad2 m @ (0x2D # (pad2 d @ ?t)))))
           = Some (y, 0x2D # (pad2 m @ (0x2D # (pad2 d @ ?t))))"
    using takeDigits_run [OF year_digits(1,2) [OF assms(1,2)]] year_digits(3) [OF assms(1,2)]
    by simp
  have 2: "takeDigits 2 (pad2 m @ (0x2D # (pad2 d @ ?t))) = Some (m, 0x2D # (pad2 d @ ?t))"
    using takeDigits_run [OF pad2_digits(1,3) [OF m]] pad2_digits(2) [OF m, of 0]
    by simp
  have 3: "takeDigits 2 (pad2 d @ ?t) = Some (d, ?t)"
    using takeDigits_run [OF pad2_digits(1,3) [OF d]] pad2_digits(2) [OF d, of 0]
    by simp
  have 4: "expect 0x2D (0x2D # r) = Some r" for r
    by (simp add: expect_def)
  have t: "do {
     s6 \<leftarrow> expect 0x54 ?t;
     (h, s7) \<leftarrow> takeDigits 2 s6;
     s8 \<leftarrow> expect 0x3A s7;
     (mi, s9) \<leftarrow> takeDigits 2 s8;
     s10 \<leftarrow> expect 0x3A s9;
     (sec, s11) \<leftarrow> takeDigits 2 s10;
     (sgn, s12) \<leftarrow> (case s11 of [] \<Rightarrow> None
                      | c # cs \<Rightarrow> if c = 0x2B then Some (1, cs)
                                  else if c = 0x2D then Some (- 1, cs) else None);
     (oh, s13) \<leftarrow> takeDigits 2 s12;
     s14 \<leftarrow> expect 0x3A s13;
     (om, s15) \<leftarrow> takeDigits 2 s14;
     if s15 = [] \<and> 1 \<le> m \<and> m \<le> 12 \<and> 1 \<le> d \<and> d \<le> daysInMonth y m
        \<and> h \<le> 23 \<and> mi \<le> 59 \<and> sec \<le> 59 \<and> oh \<le> 23 \<and> om \<le> 59
     then Some ((makeDay y m d * 86400 + (h * 3600 + mi * 60 + sec)
                 - sgn * (oh * 3600 + om * 60)) * 1000)
     else None } = Some (endOfDayUTC8 y m d)"
    using assms
    by (simp add: str_def expect_def takeDigits_def isDigit_def digitValue_def
          endOfDayUTC8_def)
  show ?thesis
    unfolding p isoDateTime_def
    by (simp only: 1 2 3 4 bind.bind_lunit prod.case t)
qed

lemma expire_padded:
  assumes "0 \<le> y" "y \<le> 9999" "1 \<le> m" "m \<le> 12" "1 \<le> d" "d \<le> daysInMonth y m"
  shows "expirePart P (Some (paddedDate y m d))
         = [str ''expire='' @ intToString (endOfDayUTC8 y m d div 1000)]"
proof -
  let ?s = "paddedDate y m d"
  have d: "0 \<le> d" "d \<le> 99" and m: "0 \<le> m" "m \<le> 99"
    using assms daysInMonth_le [of y m] by linarith+
  have y: "0 \<le> y div 100" "y div 100 \<le> 99"
    using assms(1,2) by auto
  have ne: "?s \<noteq> []"
    using pad2_hd(1) [OF y] by (simp add: paddedDate_def)
  have "hd ?s = hd (pad2 (y div 100))" "last ?s = last (pad2 d)"
    using pad2_hd(1) [OF y] pad2_hd(1) [OF d] by (simp_all add: paddedDate_def)
  hence "\<not> isWhiteSpace (hd ?s)" "\<not> isWhiteSpace (last ?s)"
    using pad2_hd(2) [OF y] pad2_hd(3) [OF d] by (simp_all add: digit_not_space)
  hence tr: "trim ?s = ?s"
    using ne by (rule trim_id [rotated])
  have nb: "nonBlank (Some ?s)"
    using ne by (simp add: nonBlank_def tr)
  have bare: "isBareDate ?s"
    using assms(1,2) m d by (rule paddedDate_bare)
  have "Date_getTime P (?s @ str ''T23:59:59+08:00'') = Some (endOfDayUTC8 y m d)"
    using paddedDate_iso [OF assms] endOfDay_clip [OF assms]
    by (simp add: Date_getTime_def)
  thus ?thesis
    by (simp add: expirePart_def nb tr bare)
qed

text \<open>
  Claim C6. A bare date written with a four-digit year and a two-digit month and day
  that exists in the calendar gives, on every platform, the part \<open>expire=\<close> followed by
  the Unix seconds of 23:59:59 of that day in UTC+8. At the input \<open>expire = "2025-1-5"\<close>
  the string matches the bare date pattern as well, and the code appends the time to it
  as it is: \<open>"2025-1-5T23:59:59+08:00"\<close> is not in the ECMAScript date-time format, whose
  month and day have two digits, so its value is whatever the implementation's own parser
  gives. With a parser that rejects it the expire part is omitted. The padded
  \<open>"2025-01-05"\<close> and \<open>"2025-01-01"\<close> give the end of that day in UTC+8.
\<close>

theorem single_digit_date_not_parsed:
  "(0 \<le> y \<and> y \<le> 9999 \<and> 1 \<le> m \<and> m \<le> 12 \<and> 1 \<le> d \<and> d \<le> daysInMonth y m \<longrightarrow>
      expirePart P (Some (paddedDate y m d))
      = [str ''expire='' @ intToString (endOfDayUTC8 y m d div 1000)])
   \<and> isBareDate (str ''2025-1-5'')
   \<and> isoDateTime (str ''2025-1-5T23:59:59+08:00'') = None
   \<and> expirePart P (Some (str ''2025-1-5''))
      = (case Date_getTime P (str ''2025-1-5T23:59:59+08:00'') of
           None \<Rightarrow> [] | Some t \<Rightarrow> [str ''expire='' @ intToString (t div 1000)])
   \<and> Date_getTime P (str ''2025-1-5T23:59:59+08:00'')
      = (case dateParseImpl P (str ''2025-1-5T23:59:59+08:00'') of
           None \<Rightarrow> None | Some t \<Rightarrow> if \<bar>t\<bar> \<le> 8640000000000000 then Some t else None)
   \<and> buildSubscriptionHeaders samplePlatform (Some (noInfo\<lparr>expire := Some (str ''2025-1-5'')\<rparr>))
      = Inr []
   \<and> buildSubscriptionHeaders samplePlatform (Some (noInfo\<lparr>expire := Some (str ''2025-01-05'')\<rparr>))
      = Inr [(str ''subscription-userinfo'', str ''expire=1736092799'')]
   \<and> buildSubscriptionHeaders samplePlatform (Some (noInfo\<lparr>expire := Some (str ''2025-01-01'')\<rparr>))
      = Inr [(str ''subscription-userinfo'', str ''expire=1735747199'')]"
proof -
  have b: "isBareDate (str ''2025-1-5'')" by code_simp
  have i: "isoDateTime (str ''2025-1-5T23:59:59+08:00'') = None" by code_simp
  have t: "trim (str ''2025-1-5'') = str ''2025-1-5''" by code_simp
  have nb: "nonBlank (Some (str ''2025-1-5''))" by code_simp
  have c: "str ''2025-1-5'' @ str ''T23:59:59+08:00'' = str ''2025-1-5T23:59:59+08:00''"
    by (simp add: str_def)
  have e: "expirePart P (Some (str ''2025-1-5''))
      = (case Date_getTime P (str ''2025-1-5T23:59:59+08:00'') of
           None \<Rightarrow> [] | Some t \<Rightarrow> [str ''expire='' @ intToString (t div 1000)])"
    using b nb by (simp add: expirePart_def t c Let_def)
  have g: "Date_getTime P (str ''2025-1-5T23:59:59+08:00'')
      = (case dateParseImpl P (str ''2025-1-5T23:59:59+08:00'') of
           None \<Rightarrow> None | Some t \<Rightarrow> if \<bar>t\<bar> \<le> 8640000000000000 then Some t else None)"
    by (simp add: Date_getTime_def i)
  have s1: "buildSubscriptionHeaders samplePlatform
              (Some (noInfo\<lparr>expire := Some (str ''2025-1-5'')\<rparr>)) = Inr []"
    by code_simp
  have s2: "buildSubscriptionHeaders samplePlatform
              (Some (noInfo\<lparr>expire := Some (str ''2025-01-05'')\<rparr>))
            = Inr [(str ''subscription-userinfo'', str ''expire=1736092799'')]"
    by code_simp
  have s3: "buildSubscriptionHeaders samplePlatform
              (Some (noInfo\<lparr>expire := Some (str ''2025-01-01'')\<rparr>))
            = Inr [(str ''subscription-userinfo'', str ''expire=1735747199'')]"
    by code_simp
  have p: "0 \<le> y \<and> y \<le> 9999 \<and> 1 \<le> m \<and> m \<le> 12 \<and> 1 \<le> d \<and> d \<le> daysInMonth y m \<longrightarrow>
      expirePart P (Some (paddedDate y m d))
      = [str ''expire='' @ intToString (endOfDayUTC8 y m d div 1000)]"
    using expire_padded [of y m d P] by blast
  show ?thesis using p b i e g s1 s2 s3 by blast
qed

text \<open>The first day of 2025, the example of the specification, on the sample platform.\<close>

theorem single_digit_date_witness:
  "paddedDate 2025 1 1 = str ''2025-01-01''
   \<and> 1 \<le> daysInMonth 2025 1
   \<and> endOfDayUTC8 2025 1 1 div 1000 = 1735747199
   \<and> expirePart samplePlatform (Some (str ''2025-01-01'')) = [str ''expire=1735747199'']"
proof -
  have a: "paddedDate 2025 1 1 = str ''2025-01-01''"
    by (simp add: paddedDate_def pad2_def str_def)
  have b: "(1::int) \<le> daysInMonth 2025 1"
    by (simp add: daysInMonth_def)
  have c: "endOfDayUTC8 2025 1 1 div 1000 = 1735747199"
    by (simp add: endOfDayUTC8_def makeDay_def dayFromYear_def daysBeforeMonth_def
          inLeapYear_def)
  have d: "intToString 1735747199 = str ''1735747199''"
    by code_simp
  have "expirePart samplePlatform (Some (paddedDate 2025 1 1))
        = [str ''expire='' @ intToString (endOfDayUTC8 2025 1 1 div 1000)]"
    using single_digit_date_not_parsed [of 2025 1 1 samplePlatform] b by simp
  hence "expirePart samplePlatform (Some (str ''2025-01-01'')) = [str ''expire=1735747199'']"
    by (simp only: a c d) (simp add: str_def)
  thus ?thesis using a b c by simp
qed

section \<open>The upstream merge engine\<close>

lemma splitAcc_nonempty: "splitAcc sep acc s \<noteq> []"
  by (induction sep acc s rule: splitAcc.induct) auto

lemma join_Cons: "ps \<noteq> [] \<Longrightarrow> join sep (p # ps) = p @ sep @ join sep ps"
  by (cases ps) auto

lemma join_splitAcc: "join sep (splitAcc sep acc s) = rev acc @ s"
proof (induction sep acc s rule: splitAcc.induct)
  case (1 sep acc)
  then show ?case by simp
next
  case (2 sep acc c cs)
  show ?case
  proof (cases "sep \<noteq> [] \<and> take (length sep) (c # cs) = sep")
    case True
    have "join sep (splitAcc sep acc (c # cs))
            = rev acc @ sep @ join sep (splitAcc sep [] (drop (length sep) (c # cs)))"
      using True by (simp add: join_Cons splitAcc_nonempty del: join.simps)
    also have "\<dots> = rev acc @ take (length sep) (c # cs) @ drop (length sep) (c # cs)"
      using 2(1) True by simp
    finally show ?thesis by (simp only: append_take_drop_id)
  next
    case False
    then show ?thesis using 2(2) by auto
  qed
qed

lemma join_split: "join sep (split sep s) = s"
  by (simp add: split_def join_splitAcc)

lemma join_single: "join sep (p # ys) = p @ concat (map (\<lambda>y. sep @ y) ys)"
  by (induction ys arbitrary: p) auto

lemma join_append:
  "xs \<noteq> [] \<Longrightarrow> join sep (xs @ ys) = join sep xs @ concat (map (\<lambda>y. sep @ y) ys)"
  by (cases xs) (simp_all add: join_single del: join.simps)

lemma split_nonempty: "split sep s \<noteq> []"
  by (simp add: split_def splitAcc_nonempty)

lemma foldl_userInfoStep:
  "foldl userInfoStep obj parts
     = foldl (\<lambda>ob (k, v). objectSet ob k v) obj (List.map_filter userInfoPair parts)"
  by (induction parts arbitrary: obj)
     (auto simp: userInfoStep_def List.map_filter_simps split: option.splits)

lemma foldl_objectSet_proto:
  "foldl (\<lambda>ob (k, v). objectSet ob k v) obj ps
     = foldl (\<lambda>ob (k, v). objectSet ob k v) obj (filter (\<lambda>(k, v). k \<noteq> str ''__proto__'') ps)"
  by (induction ps arbitrary: obj) (auto simp: objectSet_def)

lemma firstOccurrences_snoc:
  "firstOccurrences (xs @ [x])
     = (if x \<in> set xs then firstOccurrences xs else firstOccurrences xs @ [x])"
  by (simp add: firstOccurrences_def)

lemma set_firstOccurrences [simp]: "set (firstOccurrences xs) = set xs"
  by (simp add: firstOccurrences_def)

lemma foldl_objectSet_fields:
  assumes "\<forall>(k, v) \<in> set ps. k \<noteq> str ''__proto__''"
  shows "foldl (\<lambda>ob (k, v). objectSet ob k v) [] ps
           = map (\<lambda>k. (k, the (map_of (rev ps) k))) (firstOccurrences (map fst ps))"
  using assms
proof (induction ps rule: rev_induct)
  case Nil
  then show ?case by (simp add: firstOccurrences_def)
next
  case (snoc x qs)
  obtain k v where x: "x = (k, v)" by (cases x)
  let ?E = "map (\<lambda>k. (k, the (map_of (rev qs) k))) (firstOccurrences (map fst qs))"
  have ih: "foldl (\<lambda>ob (k, v). objectSet ob k v) [] qs = ?E"
    using snoc by auto
  have k: "k \<noteq> str ''__proto__''" using snoc.prems x by auto
  have keys: "fst ` set ?E = fst ` set qs" by force
  show ?case
  proof (cases "k \<in> fst ` set qs")
    case True
    then have "objectSet ?E k v = map (\<lambda>(k', v'). if k' = k then (k', v) else (k', v')) ?E"
      using k keys by (simp add: objectSet_def)
    also have "\<dots> = map (\<lambda>k'. (k', the (map_of (rev (qs @ [(k, v)])) k')))
                       (firstOccurrences (map fst qs))"
      by (simp add: comp_def)
    finally show ?thesis using True by (simp add: x ih firstOccurrences_snoc)
  next
    case False
    then have a: "objectSet ?E k v = ?E @ [(k, v)]"
      using k keys by (simp add: objectSet_def)
    have b: "map (\<lambda>k'. (k', the (map_of (rev (qs @ [(k, v)])) k')))
               (firstOccurrences (map fst qs)) = ?E"
      using False by (auto simp: image_iff)
    have "map (\<lambda>k'. (k', the (map_of (rev (qs @ [x])) k'))) (firstOccurrences (map fst (qs @ [x])))
            = map (\<lambda>k'. (k', the (map_of (rev (qs @ [(k, v)])) k')))
                (firstOccurrences (map fst qs)) @ [(k, v)]"
      using False by (simp add: x firstOccurrences_snoc)
    also have "\<dots> = ?E @ [(k, v)]" by (simp only: b)
    finally show ?thesis using a by (simp add: x ih)
  qed
qed

lemma parseUserInfo_fields:
  "truthy (Some h) \<Longrightarrow> parseUserInfo (Some h) = upstreamFields h"
proof -
  assume "truthy (Some h)"
  then have "parseUserInfo (Some h)
      = foldl (\<lambda>ob (k, v). objectSet ob k v) [] (upstreamPairs h)"
    using foldl_objectSet_proto [of "[]" "List.map_filter userInfoPair (split (str '';'') h)"]
    by (simp add: parseUserInfo_def foldl_userInfoStep upstreamPairs_def)
  also have "\<dots> = upstreamFields h"
    unfolding upstreamFields_def
    by (rule foldl_objectSet_fields) (auto simp: upstreamPairs_def)
  finally show ?thesis .
qed

lemma Object_entries_plain:
  "\<forall>(k, v) \<in> set obj. \<not> isArrayIndex k \<Longrightarrow> Object_entries obj = obj"
proof -
  assume a: "\<forall>(k, v) \<in> set obj. \<not> isArrayIndex k"
  then have "filter (\<lambda>(k, v). isArrayIndex k) obj = []"
    by (auto simp: filter_empty_conv)
  moreover from a have "filter (\<lambda>(k, v). \<not> isArrayIndex k) obj = obj"
    by (auto simp: filter_id_conv)
  ultimately show ?thesis by (simp add: Object_entries_def)
qed

lemma truthy_Some [simp]: "truthy (Some s) \<longleftrightarrow> s \<noteq> []"
  by (simp add: truthy_def)

lemma truthy_None [simp]: "\<not> truthy None"
  by (simp add: truthy_def)

lemma Object_entries_Nil [simp]: "Object_entries [] = []"
  by (simp add: Object_entries_def)

lemma merge_custom:
  assumes "c \<noteq> []"
  shows "mergeUserInfo (Some c) up
           = Some (join (str ''; '')
                     (split (str ''; '') c @ gapParts c (Object_entries (parseUserInfo up))))"
  using assms by (simp add: mergeUserInfo_def gapParts_def customKeys_def Let_def)

lemma merge_custom_front:
  assumes "c \<noteq> []"
  shows "mergeUserInfo (Some c) up
           = Some (c @ concat (map (\<lambda>p. str ''; '' @ p)
                                (gapParts c (Object_entries (parseUserInfo up)))))"
  using assms by (simp add: merge_custom join_append split_nonempty join_split)

lemma merge_samples:
  "mergeUserInfo (Some (str ''upload=1; total=3''))
     (Some (str ''upload=100; download=200; total=300; expire=999''))
   = Some (str ''upload=1; total=3; download=200; expire=999'')"
  by code_simp

lemma merge_truthy:
  assumes "mergeUserInfo custom up = Some x"
  shows "x \<noteq> []"
proof (cases "truthy custom")
  case True
  then obtain c where c: "custom = Some c" "c \<noteq> []" by (cases custom) auto
  with assms show ?thesis by (auto simp add: merge_custom_front)
next
  case False
  with assms show ?thesis
    by (cases up) (auto simp: mergeUserInfo_def split: if_splits)
qed

lemma subResponse_userinfo:
  assumes "buildSubscriptionHeaders P (subscriptionInfo m) = Inr subHeaders"
  shows "\<exists>r. subResponse P m u = Inr r
             \<and> map_of (headers r) (str ''subscription-userinfo'')
                 = mergeUserInfo (map_of subHeaders (str ''subscription-userinfo''))
                     (userinfoHeader u)"
proof (cases "mergeUserInfo (map_of subHeaders (str ''subscription-userinfo'')) (userinfoHeader u)")
  case None
  then show ?thesis
    using assms
    by (simp add: subResponse_def optionalHeader_def corsHeaders_def str_def truthy_def)
next
  case (Some x)
  then have "x \<noteq> []" by (rule merge_truthy)
  with Some show ?thesis
    using assms
    by (simp add: subResponse_def optionalHeader_def corsHeaders_def str_def truthy_def)
qed

text \<open>
  Claim C4, as amended. When the custom builder produced a \<open>subscription-userinfo\<close>
  value, the entry of the response is that value as it is, its parts in their order,
  followed by \<open>field=upstreamValue\<close> for every field of the upstream's parsed map that is
  not among the field names of the custom parts. These come in the order in which the
  map is enumerated: the field names that are array indices first, by ascending number,
  then the others in the upstream's original order, each field at the place of its first
  occurrence with the value of its last. So they come in the upstream's original order
  whenever no upstream field name is an array index. When the custom builder produced
  no value, the upstream's header is passed through unchanged if it is present and not
  empty. The entry of the response of \<open>/sub\<close> is the merged value. The sample of the
  specification holds.
\<close>

theorem merge_custom_then_gaps:
  "(c \<noteq> [] \<and> h \<noteq> [] \<longrightarrow>
      mergeUserInfo (Some c) (Some h)
        = Some (join (str ''; '')
                  (split (str ''; '') c @ gapParts c (Object_entries (upstreamFields h))))
      \<and> mergeUserInfo (Some c) (Some h)
        = Some (c @ concat (map (\<lambda>p. str ''; '' @ p)
                             (gapParts c (Object_entries (upstreamFields h))))))
   \<and> ((\<forall>(k, v) \<in> set (upstreamFields h). \<not> isArrayIndex k) \<longrightarrow>
        Object_entries (upstreamFields h) = upstreamFields h)
   \<and> (c \<noteq> [] \<longrightarrow> mergeUserInfo (Some c) None = Some c \<and> mergeUserInfo (Some c) (Some []) = Some c)
   \<and> (h \<noteq> [] \<longrightarrow> mergeUserInfo None (Some h) = Some h \<and> mergeUserInfo (Some []) (Some h) = Some h)
   \<and> (buildSubscriptionHeaders P (subscriptionInfo m) = Inr subHeaders \<longrightarrow>
        (\<exists>r. subResponse P m u = Inr r
              \<and> map_of (headers r) (str ''subscription-userinfo'')
                  = mergeUserInfo (map_of subHeaders (str ''subscription-userinfo''))
                      (userinfoHeader u)))
   \<and> mergeUserInfo (Some (str ''upload=1; total=3''))
        (Some (str ''upload=100; download=200; total=300; expire=999''))
      = Some (str ''upload=1; total=3; download=200; expire=999'')"
proof -
  have a: "mergeUserInfo (Some c) (Some h)
        = Some (join (str ''; '')
                  (split (str ''; '') c @ gapParts c (Object_entries (upstreamFields h))))"
    "mergeUserInfo (Some c) (Some h)
        = Some (c @ concat (map (\<lambda>p. str ''; '' @ p)
                             (gapParts c (Object_entries (upstreamFields h)))))"
    if "c \<noteq> []" "h \<noteq> []"
    using that merge_custom [of c "Some h"] merge_custom_front [of c "Some h"]
    by (simp_all add: parseUserInfo_fields)
  have b: "Object_entries (upstreamFields h) = upstreamFields h"
    if "\<forall>(k, v) \<in> set (upstreamFields h). \<not> isArrayIndex k"
    using that by (rule Object_entries_plain)
  have c: "mergeUserInfo (Some c) None = Some c" "mergeUserInfo (Some c) (Some []) = Some c"
    if "c \<noteq> []"
    using that merge_custom_front [of c None] merge_custom_front [of c "Some []"]
    by (simp_all add: parseUserInfo_def gapParts_def)
  have d: "mergeUserInfo None (Some h) = Some h" "mergeUserInfo (Some []) (Some h) = Some h"
    if "h \<noteq> []"
    using that by (simp_all add: mergeUserInfo_def)
  show ?thesis
    using a b c d merge_samples subResponse_userinfo [of P m subHeaders u] by blast
qed

lemma merge_witness_values:
  "upstreamFields (str ''b=1; a = 2;b=3;junk; =4'') = [(str ''b'', str ''3''), (str ''a'', str ''2'')]"
  "gapParts (str ''upload=1; a=9'') [(str ''b'', str ''3''), (str ''a'', str ''2'')] = [str ''b=3'']"
  "list_all (\<lambda>(k, v). \<not> isArrayIndex k) [(str ''b'', str ''3''), (str ''a'', str ''2'')]"
  by code_simp+

lemma merge_witness_headers:
  "buildSubscriptionHeaders samplePlatform
     (subscriptionInfo (sampleMeta\<lparr>subscriptionInfo := Some (noInfo\<lparr>upload := Some (str ''1'')\<rparr>)\<rparr>))
   = Inr [(str ''subscription-userinfo'', str ''upload=1'')]"
  "mergeUserInfo (Some (str ''upload=1'')) (userinfoHeader sampleUpstream)
   = Some (str ''upload=1; download=200'')"
  by code_simp+

theorem merge_witness:
  "str ''upload=1; a=9'' \<noteq> [] \<and> str ''b=1; a = 2;b=3;junk; =4'' \<noteq> []
   \<and> upstreamFields (str ''b=1; a = 2;b=3;junk; =4'') = [(str ''b'', str ''3''), (str ''a'', str ''2'')]
   \<and> mergeUserInfo (Some (str ''upload=1; a=9'')) (Some (str ''b=1; a = 2;b=3;junk; =4''))
      = Some (str ''upload=1; a=9; b=3'')
   \<and> mergeUserInfo None (Some (str ''b=1; a = 2;b=3;junk; =4''))
      = Some (str ''b=1; a = 2;b=3;junk; =4'')
   \<and> mergeUserInfo (Some (str ''upload=1; a=9'')) None = Some (str ''upload=1; a=9'')
   \<and> map_option (\<lambda>r. map_of (headers r) (str ''subscription-userinfo''))
        (case subResponse samplePlatform
                (sampleMeta\<lparr>subscriptionInfo := Some (noInfo\<lparr>upload := Some (str ''1'')\<rparr>)\<rparr>)
                sampleUpstream of Inl e \<Rightarrow> None | Inr r \<Rightarrow> Some r)
      = Some (Some (str ''upload=1; download=200''))"
proof -
  let ?c = "str ''upload=1; a=9''" and ?h = "str ''b=1; a = 2;b=3;junk; =4''"
  let ?m = "sampleMeta\<lparr>subscriptionInfo := Some (noInfo\<lparr>upload := Some (str ''1'')\<rparr>)\<rparr>"
  note t = merge_custom_then_gaps
             [of ?c ?h samplePlatform ?m "[(str ''subscription-userinfo'', str ''upload=1'')]"
                 sampleUpstream]
  have ne: "?c \<noteq> []" "?h \<noteq> []" by (simp_all add: str_def)
  have ni: "\<forall>(k, v) \<in> set (upstreamFields ?h). \<not> isArrayIndex k"
    using merge_witness_values(3) by (simp add: merge_witness_values(1))
  have e: "str ''upload=1; a=9'' @ concat (map (\<lambda>p. str ''; '' @ p) [str ''b=3''])
             = str ''upload=1; a=9; b=3''"
    by (simp add: str_def)
  from t ne ni
  have "mergeUserInfo (Some ?c) (Some ?h)
          = Some (?c @ concat (map (\<lambda>p. str ''; '' @ p) (gapParts ?c (upstreamFields ?h))))"
    by auto
  then have 1: "mergeUserInfo (Some ?c) (Some ?h) = Some (str ''upload=1; a=9; b=3'')"
    by (simp only: merge_witness_values e)
  from t ne
  have 2: "mergeUserInfo None (Some ?h) = Some ?h" "mergeUserInfo (Some ?c) None = Some ?c"
    by auto
  from t merge_witness_headers(1)
  obtain r where "subResponse samplePlatform ?m sampleUpstream = Inr r"
    "map_of (headers r) (str ''subscription-userinfo'')
       = mergeUserInfo (map_of [(str ''subscription-userinfo'', str ''upload=1'')]
           (str ''subscription-userinfo'')) (userinfoHeader sampleUpstream)"
    by blast
  then have 3: "map_option (\<lambda>r. map_of (headers r) (str ''subscription-userinfo''))
        (case subResponse samplePlatform ?m sampleUpstream of Inl e \<Rightarrow> None | Inr r \<Rightarrow> Some r)
      = Some (Some (str ''upload=1; download=200''))"
    by (simp add: merge_witness_headers(2))
  show ?thesis using 1 2 3 ne merge_witness_values(1) by simp
qed

text \<open>
  Claim C4 as stated appends the upstream's fields in the upstream's original order.
  With the upstream header \<open>"b=1; 0=2"\<close> the field \<open>0\<close> comes before \<open>b\<close>. An upstream
  header that is present but empty is not passed through.
\<close>

theorem merge_order_counterexample:
  "upstreamFields (str ''b=1; 0=2'') = [(str ''b'', str ''1''), (str ''0'', str ''2'')]
   \<and> mergeUserInfo (Some (str ''upload=1'')) (Some (str ''b=1; 0=2''))
      = Some (str ''upload=1; 0=2; b=1'')
   \<and> mergeUserInfo None (Some []) = None"
  by code_simp

section \<open>The record lifecycle\<close>

lemma handleRaw_missing:
  "getMeta s i = None \<Longrightarrow> handleRaw P now i s = (Inr (plain 404 (str ''Not found'')), s)"
  by (simp add: handleRaw_def)

lemma handleSub_missing:
  "getMeta s i = None \<Longrightarrow> handleSub P now i s = (Inr (plain 404 (str ''Not found'')), s)"
  by (simp add: handleSub_def)

lemma getMeta_deleted: "getMeta (deleteContent i (deleteMeta i s)) i = None"
  by (simp add: getMeta_def deleteContent_def deleteMeta_def)

lemma getContent_deleted: "getContent (deleteContent i (deleteMeta i s)) i = None"
  by (simp add: getContent_def deleteContent_def deleteMeta_def)

lemma handleRaw_effect:
  assumes "getMeta s i = Some m" "\<not> isExpired now m" "\<not> limitReached m" "truthy (getContent s i)"
  shows "snd (handleRaw P now i s) =
           (if burnAfterRead m then deleteContent i (deleteMeta i s) else putMeta i (countDownload m) s)"
  using assms
  by (simp add: handleRaw_def Let_def countDownload_def split: sum.splits option.splits)

lemma handleSub_effect:
  assumes "getMeta s i = Some m" "\<not> isExpired now m" "\<not> limitReached m" "truthy (getContent s i)"
  shows "snd (handleSub P now i s) =
           (if burnAfterRead m then deleteContent i (deleteMeta i s) else putMeta i (countDownload m) s)"
  using assms
  by (simp add: handleSub_def Let_def countDownload_def split: sum.splits option.splits fetch_result.splits)

lemma handleRaw_ok_cases:
  assumes "statusOf (fst (handleRaw P now i s)) = Some 200"
  shows "\<exists>m. getMeta s i = Some m \<and> \<not> isExpired now m \<and> \<not> limitReached m \<and> truthy (getContent s i)"
  using assms
  by (auto simp add: handleRaw_def statusOf_def plain_def split: option.splits if_splits)

lemma handleSub_ok_cases:
  assumes "statusOf (fst (handleSub P now i s)) = Some 200"
  shows "\<exists>m. getMeta s i = Some m \<and> \<not> isExpired now m \<and> \<not> limitReached m \<and> truthy (getContent s i)"
  using assms
  by (auto simp add: handleSub_def statusOf_def plain_def split: option.splits if_splits)

lemma handleRaw_not_gone:
  assumes "getMeta s i = Some m" "\<not> isExpired now m" "\<not> limitReached m"
  shows "statusOf (fst (handleRaw P now i s)) \<noteq> Some 410"
  using assms
  by (simp add: handleRaw_def statusOf_def plain_def Let_def split: option.splits sum.splits)

lemma handleSub_not_gone:
  assumes "getMeta s i = Some m" "\<not> isExpired now m" "\<not> limitReached m"
  shows "statusOf (fst (handleSub P now i s)) \<noteq> Some 410"
  using assms
  by (simp add: handleSub_def statusOf_def plain_def failed_def subResponse_def Let_def split: option.splits sum.splits fetch_result.splits)

lemma readAll_missing:
  "getMeta s i = None \<Longrightarrow>
   readAll P i rs s = (map (\<lambda>_. Inr (plain 404 (str ''Not found''))) rs, s)"
proof (induction rs)
  case Nil
  then show ?case by simp
next
  case (Cons r rs)
  obtain rt now where r: "r = (rt, now)" by (cases r)
  have "handleRead P rt now i s = (Inr (plain 404 (str ''Not found'')), s)"
    using Cons.prems by (cases rt) (simp_all add: handleRaw_missing handleSub_missing)
  with Cons r show ?case by simp
qed

lemma handleRead_effect:
  assumes "getMeta s i = Some m" "\<not> isExpired now m" "\<not> limitReached m" "truthy (getContent s i)"
  shows "snd (handleRead P r now i s) =
           (if burnAfterRead m then deleteContent i (deleteMeta i s) else putMeta i (countDownload m) s)"
  using assms by (cases r) (simp_all add: handleRaw_effect handleSub_effect)

lemma handleRead_ok_cases:
  assumes "statusOf (fst (handleRead P r now i s)) = Some 200"
  shows "\<exists>m. getMeta s i = Some m \<and> \<not> isExpired now m \<and> \<not> limitReached m \<and> truthy (getContent s i)"
  using assms by (cases r) (simp_all add: handleRaw_ok_cases handleSub_ok_cases)

lemma handleRead_not_gone:
  assumes "getMeta s i = Some m" "\<not> isExpired now m" "\<not> limitReached m"
  shows "statusOf (fst (handleRead P r now i s)) \<noteq> Some 410"
  using assms by (cases r) (simp_all add: handleRaw_not_gone handleSub_not_gone)

lemma handleRead_missing:
  "getMeta s i = None \<Longrightarrow> handleRead P r now i s = (Inr (plain 404 (str ''Not found'')), s)"
  by (cases r) (simp_all add: handleRaw_missing handleSub_missing)

lemma handleRead_store:
  assumes "getMeta s i = Some m"
  shows "snd (handleRead P r now i s) = s
       \<or> snd (handleRead P r now i s) = deleteContent i (deleteMeta i s)
       \<or> snd (handleRead P r now i s) = putMeta i (countDownload m) s"
proof (cases "\<not> isExpired now m \<and> \<not> limitReached m \<and> truthy (getContent s i)")
  case True
  then show ?thesis using handleRead_effect [OF assms, of now P r] by auto
next
  case False
  then show ?thesis
    using assms by (cases r) (auto simp: handleRaw_def handleSub_def)
qed

lemma downloads_monotone:
  assumes "getMeta s i = Some m" "getMeta (snd (handleRead P r now i s)) i = Some m'"
  shows "downloads m \<le> downloads m'"
proof -
  have c: "downloads (countDownload m) = downloads m + 1"
    by (simp add: countDownload_def downloads_def)
  have p: "getMeta (putMeta i (countDownload m) s) i = Some (countDownload m)"
    by (simp add: getMeta_def putMeta_def)
  from handleRead_store [OF assms(1), of P r now] assms c p show ?thesis
    by (auto simp: getMeta_deleted)
qed

lemma handleSub_plain:
  assumes "getMeta s i = Some m" "\<not> isExpired now m" "\<not> limitReached m" "truthy (getContent s i)"
    and "\<not> (meta_type m = str ''subscription'' \<and> startsWith (the (getContent s i)) (str ''http''))"
  shows "fst (handleSub P now i s)
         = Inr \<lparr>status = 200,
                headers = corsHeaders @ [(str ''Content-Type'', str ''text/plain; charset=utf-8'')],
                body = Text (the (getContent s i))\<rparr>"
  using assms by (auto simp: handleSub_def Let_def countDownload_def)

lemma handleSub_fetched:
  assumes "getMeta s i = Some m" "\<not> isExpired now m" "\<not> limitReached m" "truthy (getContent s i)"
    and "meta_type m = str ''subscription''" "startsWith (the (getContent s i)) (str ''http'')"
  shows "fetch P (the (getContent s i)) = NetworkError msg \<Longrightarrow>
           fst (handleSub P now i s) = Inr (failed msg)"
    and "fetch P (the (getContent s i)) = Fetched up \<Longrightarrow> \<not> ok up \<Longrightarrow>
           fst (handleSub P now i s)
           = Inr (failed (decimal (int (statusCode up)) @ str '' '' @ statusText up))"
    and "fetch P (the (getContent s i)) = Fetched up \<Longrightarrow> ok up \<Longrightarrow>
         subResponse P (countDownload m) up = Inr rsp \<Longrightarrow>
           fst (handleSub P now i s) = Inr rsp"
  using assms by (auto simp: handleSub_def Let_def countDownload_def)

lemma handleRaw_text:
  assumes "getMeta s i = Some m" "\<not> isExpired now m" "\<not> limitReached m" "truthy (getContent s i)"
    and "buildSubscriptionHeaders P (subscriptionInfo m) = Inr hs"
    and "startsWith (contentType m) (str ''text/'')"
    and "rawHeaders (contentType m @ str ''; charset=utf-8'') hs (filename m) = Inr rh"
  shows "fst (handleRaw P now i s)
         = Inr \<lparr>status = 200, headers = rh, body = Text (the (getContent s i))\<rparr>"
  using assms by (auto simp: handleRaw_def Let_def countDownload_def)

text \<open>
  Claim C1. A read on \<open>/raw\<close> or \<open>/sub\<close> of a record that exists, is not expired, has
  not reached its limit and has content passes the checks. Whatever the handler answers
  afterwards, the \<open>downloadCount\<close> of the record is incremented by exactly one (an absent
  count is taken as 0) before the decision, and then exactly one of two things happens:
  if \<open>burnAfterRead\<close> is set, the metadata and the content entry are both deleted, so
  that any further read of the id answers 404 Not found; otherwise the metadata with the
  incremented count is written back, and the content stays. The answer is 200 with the
  content on \<open>/sub\<close> for a record that is not a subscription with a link, 200 with the
  upstream's text when the upstream is fetched, and 502 when it is not; on \<open>/raw\<close> it is
  200 with the content of a text record whose headers can be built. Conversely a read
  that answers 200 has passed the checks. Over any read at all the count of a record
  that is still there has not decreased.
\<close>

theorem successful_read_counts_once:
  "(getMeta s i = Some m \<and> \<not> isExpired now m \<and> \<not> limitReached m \<and> truthy (getContent s i) \<longrightarrow>
      snd (handleRaw P now i s)
        = (if burnAfterRead m then deleteContent i (deleteMeta i s)
           else putMeta i (countDownload m) s)
      \<and> snd (handleSub P now i s)
        = (if burnAfterRead m then deleteContent i (deleteMeta i s)
           else putMeta i (countDownload m) s)
      \<and> downloads (countDownload m) = downloads m + 1
      \<and> (burnAfterRead m \<longrightarrow>
            getMeta (deleteContent i (deleteMeta i s)) i = None
            \<and> getContent (deleteContent i (deleteMeta i s)) i = None
            \<and> handleRead P' r' now' i (deleteContent i (deleteMeta i s))
               = (Inr (plain 404 (str ''Not found'')), deleteContent i (deleteMeta i s)))
      \<and> (\<not> burnAfterRead m \<longrightarrow>
            getMeta (putMeta i (countDownload m) s) i = Some (countDownload m)
            \<and> getContent (putMeta i (countDownload m) s) i = getContent s i)
      \<and> (\<not> (meta_type m = str ''subscription''
               \<and> startsWith (the (getContent s i)) (str ''http'')) \<longrightarrow>
            fst (handleSub P now i s)
            = Inr \<lparr>status = 200,
                   headers = corsHeaders
                     @ [(str ''Content-Type'', str ''text/plain; charset=utf-8'')],
                   body = Text (the (getContent s i))\<rparr>)
      \<and> (meta_type m = str ''subscription'' \<and> startsWith (the (getContent s i)) (str ''http'') \<longrightarrow>
            (\<forall>msg. fetch P (the (getContent s i)) = NetworkError msg \<longrightarrow>
                   fst (handleSub P now i s) = Inr (failed msg))
            \<and> (\<forall>up rsp. fetch P (the (getContent s i)) = Fetched up \<and> ok up
                   \<and> subResponse P (countDownload m) up = Inr rsp \<longrightarrow>
                   fst (handleSub P now i s) = Inr rsp))
      \<and> (\<forall>hs rh. buildSubscriptionHeaders P (subscriptionInfo m) = Inr hs
            \<and> startsWith (contentType m) (str ''text/'')
            \<and> rawHeaders (contentType m @ str ''; charset=utf-8'') hs (filename m) = Inr rh \<longrightarrow>
            fst (handleRaw P now i s)
            = Inr \<lparr>status = 200, headers = rh, body = Text (the (getContent s i))\<rparr>))
   \<and> (statusOf (fst (handleRead P r now i s)) = Some 200 \<longrightarrow>
        (\<exists>m. getMeta s i = Some m \<and> \<not> isExpired now m \<and> \<not> limitReached m
             \<and> truthy (getContent s i)))
   \<and> (\<forall>m'. getMeta s i = Some m \<and> getMeta (snd (handleRead P r now i s)) i = Some m' \<longrightarrow>
          downloads m \<le> downloads m')"
  (is "(?A \<longrightarrow> ?B) \<and> ?C \<and> ?D")
proof -
  have c: "downloads (countDownload m) = downloads m + 1"
    by (simp add: countDownload_def downloads_def)
  have d: "getMeta (deleteContent i (deleteMeta i s)) i = None"
    "getContent (deleteContent i (deleteMeta i s)) i = None"
    "handleRead P' r' now' i (deleteContent i (deleteMeta i s))
       = (Inr (plain 404 (str ''Not found'')), deleteContent i (deleteMeta i s))"
    by (simp_all add: getMeta_deleted getContent_deleted handleRead_missing)
  have p: "getMeta (putMeta i (countDownload m) s) i = Some (countDownload m)"
    "getContent (putMeta i (countDownload m) s) i = getContent s i"
    by (simp_all add: getMeta_def getContent_def putMeta_def)
  have 1: "statusOf (fst (handleRead P r now i s)) = Some 200 \<longrightarrow>
        (\<exists>m. getMeta s i = Some m \<and> \<not> isExpired now m \<and> \<not> limitReached m
             \<and> truthy (getContent s i))"
    using handleRead_ok_cases [of P r now i s] by blast
  have 2: "\<forall>m'. getMeta s i = Some m \<and> getMeta (snd (handleRead P r now i s)) i = Some m' \<longrightarrow>
          downloads m \<le> downloads m'"
    using downloads_monotone [of s i m P r now] by blast
  have B: ?B if m: "getMeta s i = Some m" "\<not> isExpired now m" "\<not> limitReached m"
      "truthy (getContent s i)"
  proof -
    note e = handleRaw_effect [OF m, of P] handleSub_effect [OF m, of P]
    have dd: "burnAfterRead m \<longrightarrow>
            getMeta (deleteContent i (deleteMeta i s)) i = None
            \<and> getContent (deleteContent i (deleteMeta i s)) i = None
            \<and> handleRead P' r' now' i (deleteContent i (deleteMeta i s))
               = (Inr (plain 404 (str ''Not found'')), deleteContent i (deleteMeta i s))"
      using d by (intro impI conjI)
    have pp: "\<not> burnAfterRead m \<longrightarrow>
            getMeta (putMeta i (countDownload m) s) i = Some (countDownload m)
            \<and> getContent (putMeta i (countDownload m) s) i = getContent s i"
      using p by (intro impI conjI)
    have a: "\<not> (meta_type m = str ''subscription''
               \<and> startsWith (the (getContent s i)) (str ''http'')) \<longrightarrow>
            fst (handleSub P now i s)
            = Inr \<lparr>status = 200,
                   headers = corsHeaders
                     @ [(str ''Content-Type'', str ''text/plain; charset=utf-8'')],
                   body = Text (the (getContent s i))\<rparr>"
      using handleSub_plain [OF m, of P] by (intro impI)
    have b: "meta_type m = str ''subscription'' \<and> startsWith (the (getContent s i)) (str ''http'') \<longrightarrow>
            (\<forall>msg. fetch P (the (getContent s i)) = NetworkError msg \<longrightarrow>
                   fst (handleSub P now i s) = Inr (failed msg))
            \<and> (\<forall>up rsp. fetch P (the (getContent s i)) = Fetched up \<and> ok up
                   \<and> subResponse P (countDownload m) up = Inr rsp \<longrightarrow>
                   fst (handleSub P now i s) = Inr rsp)"
      using handleSub_fetched(1,3) [OF m, of P] by blast
    have t: "\<forall>hs rh. buildSubscriptionHeaders P (subscriptionInfo m) = Inr hs
            \<and> startsWith (contentType m) (str ''text/'')
            \<and> rawHeaders (contentType m @ str ''; charset=utf-8'') hs (filename m) = Inr rh \<longrightarrow>
            fst (handleRaw P now i s)
            = Inr \<lparr>status = 200, headers = rh, body = Text (the (getContent s i))\<rparr>"
      using handleRaw_text [OF m, of P] by blast
    show ?B
      by (intro conjI) (fact e c dd pp a b t)+
  qed
  have "?A \<longrightarrow> ?B"
    using B by (intro impI) (elim conjE)
  then show ?thesis
    using 1 2 by (intro conjI)
qed

text \<open>
  Three records on the sample platform. One is burnt after reading and is read on
  \<open>/sub\<close>: the answer is 200 with the content, both entries are gone and the next read
  answers 404. One is kept: after a read on either route its count is 1. One is a
  subscription whose upstream cannot be reached: the answer is 502 and the count is 1.
\<close>

theorem successful_read_witness:
  "getMeta (singleStore (sampleMeta\<lparr>burnAfterRead := True\<rparr>) (str ''hi'')) (str ''a'')
     = Some (sampleMeta\<lparr>burnAfterRead := True\<rparr>)
   \<and> \<not> isExpired 5 (sampleMeta\<lparr>burnAfterRead := True\<rparr>)
   \<and> \<not> limitReached (sampleMeta\<lparr>burnAfterRead := True\<rparr>)
   \<and> truthy (getContent (singleStore (sampleMeta\<lparr>burnAfterRead := True\<rparr>) (str ''hi'')) (str ''a''))
   \<and> statusOf (fst (handleSub samplePlatform 5 (str ''a'')
        (singleStore (sampleMeta\<lparr>burnAfterRead := True\<rparr>) (str ''hi'')))) = Some 200
   \<and> getMeta (snd (handleSub samplePlatform 5 (str ''a'')
        (singleStore (sampleMeta\<lparr>burnAfterRead := True\<rparr>) (str ''hi'')))) (str ''a'') = None
   \<and> getContent (snd (handleSub samplePlatform 5 (str ''a'')
        (singleStore (sampleMeta\<lparr>burnAfterRead := True\<rparr>) (str ''hi'')))) (str ''a'') = None
   \<and> fst (handleRead samplePlatform Raw 9 (str ''a'')
        (snd (handleSub samplePlatform 5 (str ''a'')
           (singleStore (sampleMeta\<lparr>burnAfterRead := True\<rparr>) (str ''hi'')))))
      = Inr (plain 404 (str ''Not found''))
   \<and> getMeta (snd (handleSub samplePlatform 5 (str ''a'') (singleStore sampleMeta (str ''hi''))))
        (str ''a'')
      = Some (sampleMeta\<lparr>downloadCount := Some 1\<rparr>)
   \<and> getMeta (snd (handleRaw samplePlatform 5 (str ''a'') (singleStore sampleMeta (str ''hi''))))
        (str ''a'')
      = Some (sampleMeta\<lparr>downloadCount := Some 1\<rparr>)
   \<and> statusOf (fst (handleSub samplePlatform 5 (str ''a'')
        (singleStore (sampleMeta\<lparr>meta_type := str ''subscription''\<rparr>) (str ''http://x''))))
      = Some 502
   \<and> getMeta (snd (handleSub samplePlatform 5 (str ''a'')
        (singleStore (sampleMeta\<lparr>meta_type := str ''subscription''\<rparr>) (str ''http://x''))))
        (str ''a'')
      = Some (sampleMeta\<lparr>meta_type := str ''subscription'', downloadCount := Some 1\<rparr>)"
proof -
  let ?b = "sampleMeta\<lparr>burnAfterRead := True\<rparr>"
  let ?u = "sampleMeta\<lparr>meta_type := str ''subscription''\<rparr>"
  let ?sb = "singleStore ?b (str ''hi'')"
  let ?sk = "singleStore sampleMeta (str ''hi'')"
  let ?su = "singleStore ?u (str ''http://x'')"
  have ne: "str ''hi'' \<noteq> []" "str ''http://x'' \<noteq> []" "str ''text'' \<noteq> str ''subscription''"
    by (simp_all add: str_def)
  have http: "startsWith (str ''http://x'') (str ''http'')"
    by (simp add: startsWith_def str_def)
  have gb: "getMeta ?sb (str ''a'') = Some ?b" "\<not> isExpired 5 ?b" "\<not> limitReached ?b"
    "truthy (getContent ?sb (str ''a''))" "burnAfterRead ?b" "meta_type ?b = str ''text''"
    "getContent ?sb (str ''a'') = Some (str ''hi'')"
    using ne by (simp_all add: getMeta_def getContent_def singleStore_def sampleMeta_def
          isExpired_def limitReached_def truthy_def)
  have gk: "getMeta ?sk (str ''a'') = Some sampleMeta" "\<not> isExpired 5 sampleMeta"
    "\<not> limitReached sampleMeta" "truthy (getContent ?sk (str ''a''))"
    "\<not> burnAfterRead sampleMeta"
    using ne by (simp_all add: getMeta_def getContent_def singleStore_def sampleMeta_def
          isExpired_def limitReached_def truthy_def)
  have gu: "getMeta ?su (str ''a'') = Some ?u" "\<not> isExpired 5 ?u" "\<not> limitReached ?u"
    "truthy (getContent ?su (str ''a''))" "\<not> burnAfterRead ?u"
    "meta_type ?u = str ''subscription''" "getContent ?su (str ''a'') = Some (str ''http://x'')"
    "fetch samplePlatform (str ''http://x'') = NetworkError []"
    using ne by (simp_all add: getMeta_def getContent_def singleStore_def sampleMeta_def
          isExpired_def limitReached_def truthy_def samplePlatform_def)
  have ck: "countDownload sampleMeta = sampleMeta\<lparr>downloadCount := Some 1\<rparr>"
    "countDownload ?u = sampleMeta\<lparr>meta_type := str ''subscription'', downloadCount := Some 1\<rparr>"
    by (simp_all add: countDownload_def downloads_def sampleMeta_def)
  note tb = successful_read_counts_once
              [of ?sb "str ''a''" ?b 5 samplePlatform samplePlatform Raw 9 Sub,
               THEN conjunct1, THEN mp, OF conjI [OF gb(1) conjI [OF gb(2) conjI [OF gb(3) gb(4)]]]]
  note tk = successful_read_counts_once
              [of ?sk "str ''a''" sampleMeta 5 samplePlatform samplePlatform Raw 9 Sub,
               THEN conjunct1, THEN mp, OF conjI [OF gk(1) conjI [OF gk(2) conjI [OF gk(3) gk(4)]]]]
  note tu = successful_read_counts_once
              [of ?su "str ''a''" ?u 5 samplePlatform samplePlatform Raw 9 Sub,
               THEN conjunct1, THEN mp, OF conjI [OF gu(1) conjI [OF gu(2) conjI [OF gu(3) gu(4)]]]]
  note c2 = conjunct2 [THEN conjunct1]
  note c4 = conjunct2 [THEN conjunct2, THEN conjunct2, THEN conjunct1]
  note c5 = conjunct2 [THEN conjunct2, THEN conjunct2, THEN conjunct2, THEN conjunct1]
  note c6 = conjunct2 [THEN conjunct2, THEN conjunct2, THEN conjunct2, THEN conjunct2,
                       THEN conjunct1]
  note c7 = conjunct2 [THEN conjunct2, THEN conjunct2, THEN conjunct2, THEN conjunct2,
                       THEN conjunct2, THEN conjunct1]
  have b1: "snd (handleSub samplePlatform 5 (str ''a'') ?sb)
            = deleteContent (str ''a'') (deleteMeta (str ''a'') ?sb)"
    using tb [THEN c2] gb(5) by (simp only: if_True)
  have b2: "fst (handleSub samplePlatform 5 (str ''a'') ?sb)
            = Inr \<lparr>status = 200,
                   headers = corsHeaders
                     @ [(str ''Content-Type'', str ''text/plain; charset=utf-8'')],
                   body = Text (str ''hi'')\<rparr>"
    using tb [THEN c6] gb(6,7) ne(3) by simp
  have b3: "getMeta (deleteContent (str ''a'') (deleteMeta (str ''a'') ?sb)) (str ''a'') = None
    \<and> getContent (deleteContent (str ''a'') (deleteMeta (str ''a'') ?sb)) (str ''a'') = None
    \<and> handleRead samplePlatform Raw 9 (str ''a'')
       (deleteContent (str ''a'') (deleteMeta (str ''a'') ?sb))
     = (Inr (plain 404 (str ''Not found'')),
        deleteContent (str ''a'') (deleteMeta (str ''a'') ?sb))"
    using tb [THEN c4] gb(5) by (rule mp)
  have k1: "snd (handleSub samplePlatform 5 (str ''a'') ?sk)
            = putMeta (str ''a'') (countDownload sampleMeta) ?sk"
    using tk [THEN c2] gk(5) by (simp only: if_False)
  have k2: "snd (handleRaw samplePlatform 5 (str ''a'') ?sk)
            = putMeta (str ''a'') (countDownload sampleMeta) ?sk"
    using tk [THEN conjunct1] gk(5) by (simp only: if_False)
  have k3: "getMeta (putMeta (str ''a'') (countDownload sampleMeta) ?sk) (str ''a'')
            = Some (countDownload sampleMeta)"
    using tk [THEN c5] gk(5) by (rule mp [THEN conjunct1])
  have u1: "snd (handleSub samplePlatform 5 (str ''a'') ?su)
            = putMeta (str ''a'') (countDownload ?u) ?su"
    using tu [THEN c2] gu(5) by (simp only: if_False)
  have u3: "getMeta (putMeta (str ''a'') (countDownload ?u) ?su) (str ''a'')
            = Some (countDownload ?u)"
    using tu [THEN c5] gu(5) by (rule mp [THEN conjunct1])
  have "startsWith (the (getContent ?su (str ''a''))) (str ''http'')"
    using http by (simp only: gu(7) option.sel)
  with gu(6) have "meta_type ?u = str ''subscription''
      \<and> startsWith (the (getContent ?su (str ''a''))) (str ''http'')" by (rule conjI)
  with tu [THEN c7] have "\<forall>msg. fetch samplePlatform (the (getContent ?su (str ''a''))) = NetworkError msg \<longrightarrow>
                   fst (handleSub samplePlatform 5 (str ''a'') ?su) = Inr (failed msg)"
    by (rule mp [THEN conjunct1])
  then have u2: "fst (handleSub samplePlatform 5 (str ''a'') ?su) = Inr (failed [])"
    using gu(8) by (simp only: gu(7) option.sel)
  have st: "statusOf (Inr \<lparr>status = 200,
                   headers = corsHeaders
                     @ [(str ''Content-Type'', str ''text/plain; charset=utf-8'')],
                   body = Text (str ''hi'')\<rparr>) = Some 200"
    "statusOf (Inr (failed [])) = Some 502"
    by (simp_all add: statusOf_def failed_def plain_def)
  show ?thesis
    unfolding b1 b2 k1 k2 u1 u2 st ck
    using gb(1-4) b3 k3 [unfolded ck] u3 [unfolded ck] by simp
qed

text \<open>
  Claim C2, as amended. For every record that is not expired, whose \<open>maxDownloads\<close> is set
  to a non-zero value and whose \<open>downloadCount\<close> is at least \<open>maxDownloads\<close>, a read on
  \<open>/raw\<close> or \<open>/sub\<close> answers 410 "Download limit reached" and leaves the store as it
  was: neither entry is deleted and the count is unchanged.
\<close>

theorem limit_reached_rejects:
  assumes "getMeta s i = Some m" and "\<not> isExpired now m"
    and "maxDownloads m = Some mx" and "mx \<noteq> 0"
    and "downloadCount m = Some n" and "mx \<le> n"
  shows "handleRaw P now i s = (Inr (plain 410 (str ''Download limit reached'')), s)
       \<and> handleSub P now i s = (Inr (plain 410 (str ''Download limit reached'')), s)"
proof -
  have "limitReached m" using assms by (simp add: limitReached_def)
  then show ?thesis using assms(1,2) by (simp add: handleRaw_def handleSub_def)
qed

theorem limit_reached_witness:
  "getMeta (singleStore (sampleMeta\<lparr>maxDownloads := Some 2, downloadCount := Some 2\<rparr>) (str ''hi''))
      (str ''a'')
     = Some (sampleMeta\<lparr>maxDownloads := Some 2, downloadCount := Some 2\<rparr>)
   \<and> handleRaw samplePlatform 5 (str ''a'')
        (singleStore (sampleMeta\<lparr>maxDownloads := Some 2, downloadCount := Some 2\<rparr>) (str ''hi''))
      = (Inr (plain 410 (str ''Download limit reached'')),
         singleStore (sampleMeta\<lparr>maxDownloads := Some 2, downloadCount := Some 2\<rparr>) (str ''hi''))
   \<and> handleSub samplePlatform 5 (str ''a'')
        (singleStore (sampleMeta\<lparr>maxDownloads := Some 2, downloadCount := Some 2\<rparr>) (str ''hi''))
      = (Inr (plain 410 (str ''Download limit reached'')),
         singleStore (sampleMeta\<lparr>maxDownloads := Some 2, downloadCount := Some 2\<rparr>) (str ''hi''))"
  using limit_reached_rejects
          [of "singleStore (sampleMeta\<lparr>maxDownloads := Some 2, downloadCount := Some 2\<rparr>) (str ''hi'')"
              "str ''a''" "sampleMeta\<lparr>maxDownloads := Some 2, downloadCount := Some 2\<rparr>" 5 2 2
              samplePlatform]
  by (simp add: getMeta_def singleStore_def sampleMeta_def isExpired_def)

text \<open>
  Claim C2 as stated fails in two ways. A record with \<open>maxDownloads = 0\<close> and
  \<open>downloadCount = 0\<close> is read with status 200 and its count goes to 1. A record that has
  reached its limit and is also expired is answered "File expired", and is deleted.
\<close>

theorem limit_reached_counterexample:
  "maxDownloads (sampleMeta\<lparr>maxDownloads := Some 0\<rparr>) = Some 0
   \<and> downloadCount (sampleMeta\<lparr>maxDownloads := Some 0\<rparr>) = Some 0
   \<and> statusOf (fst (handleRaw samplePlatform 5 (str ''a'')
        (singleStore (sampleMeta\<lparr>maxDownloads := Some 0\<rparr>) (str ''hi'')))) = Some 200
   \<and> getMeta (snd (handleRaw samplePlatform 5 (str ''a'')
        (singleStore (sampleMeta\<lparr>maxDownloads := Some 0\<rparr>) (str ''hi'')))) (str ''a'')
      = Some (sampleMeta\<lparr>maxDownloads := Some 0, downloadCount := Some 1\<rparr>)
   \<and> handleRaw samplePlatform 2000 (str ''a'')
        (singleStore (sampleMeta\<lparr>expiresAt := Some 1000, maxDownloads := Some 1,
                                 downloadCount := Some 1\<rparr>) (str ''hi''))
      = (Inr (plain 410 (str ''File expired'')),
         \<lparr>metaEntries = Map.empty, contentEntries = Map.empty\<rparr>)"
  by (simp add: handleRaw_def getMeta_def getContent_def singleStore_def sampleMeta_def
        isExpired_def limitReached_def truthy_def countDownload_def downloads_def putMeta_def
        deleteMeta_def deleteContent_def buildSubscriptionHeaders_def startsWith_def
        rawHeaders_def encodeFilename_def statusOf_def str_def isUnreserved_def
        split: sum.splits)

text \<open>
  Claim C3. For every record whose \<open>expiresAt\<close> is before the time of the read, a read on
  \<open>/raw\<close> or \<open>/sub\<close> deletes the metadata entry and the content entry and answers 410
  (expired); every later read of the id, on either route and at any time, answers
  404 Not found and leaves the store as it is.
\<close>

theorem expired_read_deletes_record:
  assumes "getMeta s i = Some m" and "expiresAt m = Some t" and "t < now"
  shows "handleRaw P now i s
           = (Inr (plain 410 (str ''File expired'')), deleteContent i (deleteMeta i s))
       \<and> handleSub P now i s
           = (Inr (plain 410 (str ''Subscription expired'')), deleteContent i (deleteMeta i s))
       \<and> getMeta (deleteContent i (deleteMeta i s)) i = None
       \<and> getContent (deleteContent i (deleteMeta i s)) i = None
       \<and> readAll P' i rs (deleteContent i (deleteMeta i s))
           = (map (\<lambda>_. Inr (plain 404 (str ''Not found''))) rs,
              deleteContent i (deleteMeta i s))"
proof -
  have e: "isExpired now m" using assms by (simp add: isExpired_def)
  have "handleRaw P now i s
          = (Inr (plain 410 (str ''File expired'')), deleteContent i (deleteMeta i s))"
    using assms(1) e by (simp add: handleRaw_def)
  moreover have "handleSub P now i s
          = (Inr (plain 410 (str ''Subscription expired'')), deleteContent i (deleteMeta i s))"
    using assms(1) e by (simp add: handleSub_def)
  ultimately show ?thesis
    by (simp add: getMeta_deleted getContent_deleted readAll_missing)
qed

theorem expired_read_witness:
  "getMeta (singleStore (sampleMeta\<lparr>expiresAt := Some 1000\<rparr>) (str ''hi'')) (str ''a'')
     = Some (sampleMeta\<lparr>expiresAt := Some 1000\<rparr>)
   \<and> (1000 :: int) < 2000
   \<and> statusOf (fst (handleRaw samplePlatform 2000 (str ''a'')
        (singleStore (sampleMeta\<lparr>expiresAt := Some 1000\<rparr>) (str ''hi'')))) = Some 410
   \<and> fst (readAll samplePlatform (str ''a'') [(Raw, 3000), (Sub, 500)]
        (snd (handleSub samplePlatform 2000 (str ''a'')
           (singleStore (sampleMeta\<lparr>expiresAt := Some 1000\<rparr>) (str ''hi'')))))
      = [Inr (plain 404 (str ''Not found'')), Inr (plain 404 (str ''Not found''))]"
  using expired_read_deletes_record
          [of "singleStore (sampleMeta\<lparr>expiresAt := Some 1000\<rparr>) (str ''hi'')" "str ''a''"
              "sampleMeta\<lparr>expiresAt := Some 1000\<rparr>" 1000 2000 samplePlatform samplePlatform
              "[(Raw, 3000), (Sub, 500)]"]
  by (simp add: singleStore_def sampleMeta_def getMeta_def plain_def statusOf_def)

lemma readAll_unlimited:
  assumes "maxDownloads m = None \<or> maxDownloads m = Some 0"
    and "expiresAt m = None" and "\<not> burnAfterRead m"
    and "getMeta s i = Some m" and "truthy (getContent s i)"
  shows "list_all (\<lambda>x. statusOf x \<noteq> Some 410) (fst (readAll P i rs s))
       \<and> (\<exists>m'. getMeta (snd (readAll P i rs s)) i = Some m'
                \<and> downloads m' = downloads m + int (length rs))"
  using assms
proof (induction rs arbitrary: s m)
  case Nil
  then show ?case by simp
next
  case (Cons a rs)
  obtain rt now where a: "a = (rt, now)" by (cases a)
  have ne: "\<not> isExpired now m" using Cons.prems by (simp add: isExpired_def)
  have nl: "\<not> limitReached m" using Cons.prems by (auto simp: limitReached_def)
  let ?s' = "putMeta i (countDownload m) s"
  have eff: "snd (handleRead P rt now i s) = ?s'"
    using handleRead_effect [OF Cons.prems(4) ne nl Cons.prems(5)] Cons.prems(3) by simp
  have st: "statusOf (fst (handleRead P rt now i s)) \<noteq> Some 410"
    using handleRead_not_gone [OF Cons.prems(4) ne nl] .
  have ih: "list_all (\<lambda>x. statusOf x \<noteq> Some 410) (fst (readAll P i rs ?s'))
       \<and> (\<exists>m'. getMeta (snd (readAll P i rs ?s')) i = Some m'
                \<and> downloads m' = downloads (countDownload m) + int (length rs))"
    using Cons.prems
    by (intro Cons.IH) (auto simp: countDownload_def getMeta_def getContent_def putMeta_def)
  have c: "downloads (countDownload m) = downloads m + 1"
    by (simp add: countDownload_def downloads_def)
  show ?case
    using ih eff st a c
    by (cases "handleRead P rt now i s") (auto split: prod.splits)
qed

text \<open>
  Claim C10. A record whose \<open>maxDownloads\<close> is 0, null or absent never reaches a limit,
  whatever its \<open>downloadCount\<close>: the limit check is skipped. Such a record, when it does
  not expire and is not burnt after reading, is read any number of times on \<open>/raw\<close> and
  \<open>/sub\<close> without a single 410, and each read counts.
\<close>

theorem zero_limit_is_no_limit:
  assumes "maxDownloads m = None \<or> maxDownloads m = Some 0"
  shows "\<not> limitReached (m\<lparr>downloadCount := c\<rparr>)
       \<and> (expiresAt m = None \<and> \<not> burnAfterRead m \<and> getMeta s i = Some m
            \<and> truthy (getContent s i) \<longrightarrow>
          list_all (\<lambda>x. statusOf x \<noteq> Some 410) (fst (readAll P i rs s))
          \<and> (\<exists>m'. getMeta (snd (readAll P i rs s)) i = Some m'
                   \<and> downloads m' = downloads m + int (length rs)))"
  using assms readAll_unlimited [of m s i P rs] by (auto simp: limitReached_def)

theorem zero_limit_witness:
  "maxDownloads (sampleMeta\<lparr>maxDownloads := Some 0, downloadCount := Some 7\<rparr>) = Some 0
   \<and> \<not> limitReached (sampleMeta\<lparr>maxDownloads := Some 0, downloadCount := Some 7\<rparr>)
   \<and> list_all (\<lambda>x. statusOf x \<noteq> Some 410)
        (fst (readAll samplePlatform (str ''a'') [(Raw, 1), (Sub, 2), (Raw, 3)]
           (singleStore (sampleMeta\<lparr>maxDownloads := Some 0, downloadCount := Some 7\<rparr>) (str ''hi''))))
   \<and> map_option downloads
        (getMeta (snd (readAll samplePlatform (str ''a'') [(Raw, 1), (Sub, 2), (Raw, 3)]
           (singleStore (sampleMeta\<lparr>maxDownloads := Some 0, downloadCount := Some 7\<rparr>) (str ''hi''))))
          (str ''a'')) = Some 10"
  using zero_limit_is_no_limit
          [of "sampleMeta\<lparr>maxDownloads := Some 0, downloadCount := Some 7\<rparr>" "Some 7"
              "singleStore (sampleMeta\<lparr>maxDownloads := Some 0, downloadCount := Some 7\<rparr>) (str ''hi'')"
              "str ''a''" samplePlatform "[(Raw, 1), (Sub, 2), (Raw, 3)]"]
  by (auto simp add: getMeta_def getContent_def singleStore_def sampleMeta_def truthy_def
        downloads_def str_def)

section \<open>Uploads\<close>

text \<open>
  A multipart upload whose file is over 25 MiB, or whose type starts with \<open>image/\<close>,
  \<open>video/\<close> or \<open>audio/\<close>, is answered 400 and writes nothing.
\<close>

lemma multipart_rejected:
  assumes "fd_file fd = Some f"
    and "25 * 1024 * 1024 < length (fileBytes f) \<or> startsWith (fileType f) (str ''image/'')
         \<or> startsWith (fileType f) (str ''video/'') \<or> startsWith (fileType f) (str ''audio/'')"
  shows "statusOf (fst (handleUpload P now rnd (MultipartRequest fd) s)) = Some 400
       \<and> snd (handleUpload P now rnd (MultipartRequest fd) s) = s"
  using assms
  by (auto simp: handleUpload_def readMultipart_def isAllowedFile_def statusOf_def json_def)

text \<open>
  Claim C9, at a JSON upload. The JSON branch of \<open>handleUpload\<close> does not make the
  checks of the multipart branch: a body with \<open>contentType = "image/png"\<close> is answered
  200, and its record and content are written.
\<close>

theorem json_upload_unchecked:
  "statusOf (fst (handleUpload samplePlatform 0 []
       (JsonRequest (sampleBody\<lparr>body_content := Some (str ''aGk=''),
                                  body_contentType := Some (str ''image/png'')\<rparr>)) emptyStore))
     = Some 200
   \<and> map_option contentType (getMeta (snd (handleUpload samplePlatform 0 []
       (JsonRequest (sampleBody\<lparr>body_content := Some (str ''aGk=''),
                                  body_contentType := Some (str ''image/png'')\<rparr>)) emptyStore))
         (str ''pic''))
     = Some (str ''image/png'')
   \<and> getContent (snd (handleUpload samplePlatform 0 []
       (JsonRequest (sampleBody\<lparr>body_content := Some (str ''aGk=''),
                                  body_contentType := Some (str ''image/png'')\<rparr>)) emptyStore))
         (str ''pic'')
     = Some (str ''aGk='')"
proof -
  have p: "str ''pic'' \<noteq> []" "str ''aGk='' \<noteq> []" "str ''image/png'' \<noteq> []"
    "str ''text'' \<noteq> str ''subscription''"
    by (simp_all add: str_def)
  show ?thesis
    using p
    by (simp add: handleUpload_def storeUpload_def readJson_def sampleBody_def emptyStore_def
          orElse_def orNull_def truthy_def getMeta_def getContent_def putMeta_def
          putContent_def statusOf_def json_def Let_def)
qed

end
